theory Spec2Isabelle
  imports Complex_Main
begin

section \<open>JavaScript values used by \<open>index.js\<close>\<close>

text \<open>
  A JavaScript string is modelled as a HOL \<open>string\<close>: one \<open>char\<close> per code unit, so
  \<open>length\<close> is \<open>.length\<close>.  Code units are restricted to 0..255; in that range the
  white space of \<open>\s\<close>, of \<open>trim()\<close> and of the string-to-number conversion is
  TAB, LF, VT, FF, CR, SPACE and NBSP.
\<close>

definition js_space :: "char \<Rightarrow> bool" where
  "js_space c = (c \<in> set [CHR 0x09, CHR 0x0A, CHR 0x0B, CHR 0x0C, CHR 0x0D, CHR 0x20, CHR 0xA0])"

text \<open>\<open>s.trim()\<close>.\<close>

definition trim :: "string \<Rightarrow> string" where
  "trim s = rev (dropWhile js_space (rev (dropWhile js_space s)))"

text \<open>\<open>s.replace(/\s+/g, ' ')\<close>: every maximal run of white space becomes one space.\<close>

function collapse_spaces :: "string \<Rightarrow> string" where
  "collapse_spaces [] = []"
| "collapse_spaces (c # cs) =
     (if js_space c then CHR '' '' # collapse_spaces (dropWhile js_space cs)
      else c # collapse_spaces cs)"
  by pat_completeness auto
termination
  by (relation "measure length") (auto simp: less_Suc_eq_le length_dropWhile_le)

text \<open>\<open>removeExtraChars\<close> (index.js, line 650).\<close>

definition removeExtraChars :: "string \<Rightarrow> string" where
  "removeExtraChars s = trim (collapse_spaces s)"

text \<open>\<open>removeLineBreakTabs\<close> (index.js, line 63) returns its argument as it is.\<close>

definition removeLineBreakTabs :: "'a \<Rightarrow> 'a" where
  "removeLineBreakTabs str = str"

text \<open>
  Case mapping of the ASCII letters.  \<open>toUpperCase\<close> is only compared with \<open>'DIV'\<close> and
  the \<open>/i\<close> flag of the two regular expressions only meets ASCII patterns; no other code
  unit below 256 maps to one of their letters.
\<close>

definition to_upper :: "char \<Rightarrow> char" where
  "to_upper c =
     (case map_of (zip ''abcdefghijklmnopqrstuvwxyz'' ''ABCDEFGHIJKLMNOPQRSTUVWXYZ'') c of
        Some u \<Rightarrow> u | None \<Rightarrow> c)"

definition to_lower :: "char \<Rightarrow> char" where
  "to_lower c =
     (case map_of (zip ''ABCDEFGHIJKLMNOPQRSTUVWXYZ'' ''abcdefghijklmnopqrstuvwxyz'') c of
        Some l \<Rightarrow> l | None \<Rightarrow> c)"

definition toUpperCase :: "string \<Rightarrow> string" where
  "toUpperCase s = map to_upper s"

text \<open>\<open>s.split(c)\<close> for a one-character separator: never an empty list.\<close>

fun split_char :: "char \<Rightarrow> string \<Rightarrow> string list" where
  "split_char sep [] = [[]]"
| "split_char sep (c # cs) =
     (if c = sep then [] # split_char sep cs
      else (case split_char sep cs of
              seg # segs \<Rightarrow> (c # seg) # segs
            | [] \<Rightarrow> [[c]]))"

text \<open>
  \<open>s.split(/[\n,]+/)\<close>: the separators are the maximal runs of commas and line feeds.
\<close>

definition is_tag_sep :: "char \<Rightarrow> bool" where
  "is_tag_sep c = (c = CHR '','' \<or> c = CHR 0x0A)"

function split_tags :: "string \<Rightarrow> string list" where
  "split_tags [] = [[]]"
| "split_tags (c # cs) =
     (if is_tag_sep c then [] # split_tags (dropWhile is_tag_sep cs)
      else (case split_tags cs of
              seg # segs \<Rightarrow> (c # seg) # segs
            | [] \<Rightarrow> [[c]]))"
  by pat_completeness auto
termination
  by (relation "measure length") (auto simp: less_Suc_eq_le length_dropWhile_le)

text \<open>\<open>s.search(re) !== -1\<close> for a regular expression \<open>/w1|w2|.../i\<close> of plain words.\<close>

fun is_infix :: "string \<Rightarrow> string \<Rightarrow> bool" where
  "is_infix w [] = (w = [])"
| "is_infix w (c # cs) = (take (length w) (c # cs) = w \<or> is_infix w cs)"

definition search_words :: "string list \<Rightarrow> string \<Rightarrow> bool" where
  "search_words ws s = list_ex (\<lambda>w. is_infix w (map to_lower s)) ws"

subsection \<open>Numbers\<close>

text \<open>
  A JavaScript number is NaN, an infinity or a finite value.  Finite values are exact
  rationals here: the rounding of IEEE doubles is not modelled, and the two zeros are
  one.  The lengths, the scores before the selection (sums of integers and halves) and
  every number of the examples below are doubles without rounding; a quotient of two
  lengths and its product with a score are rounded in the program and exact here.
\<close>

datatype jsnum = NaN | NegInf | Fin rat | PosInf

fun js_lt :: "jsnum \<Rightarrow> jsnum \<Rightarrow> bool" where
  "js_lt NaN _ = False"
| "js_lt _ NaN = False"
| "js_lt NegInf NegInf = False"
| "js_lt NegInf _ = True"
| "js_lt (Fin a) (Fin b) = (a < b)"
| "js_lt (Fin a) PosInf = True"
| "js_lt (Fin a) NegInf = False"
| "js_lt PosInf _ = False"

definition js_gt :: "jsnum \<Rightarrow> jsnum \<Rightarrow> bool" where
  "js_gt a b = js_lt b a"

fun js_neg :: "jsnum \<Rightarrow> jsnum" where
  "js_neg NaN = NaN"
| "js_neg NegInf = PosInf"
| "js_neg PosInf = NegInf"
| "js_neg (Fin a) = Fin (- a)"

fun js_add :: "jsnum \<Rightarrow> jsnum \<Rightarrow> jsnum" where
  "js_add NaN _ = NaN"
| "js_add _ NaN = NaN"
| "js_add (Fin a) (Fin b) = Fin (a + b)"
| "js_add (Fin a) b = b"
| "js_add a (Fin b) = a"
| "js_add PosInf PosInf = PosInf"
| "js_add NegInf NegInf = NegInf"
| "js_add PosInf NegInf = NaN"
| "js_add NegInf PosInf = NaN"

definition js_sub :: "jsnum \<Rightarrow> jsnum \<Rightarrow> jsnum" where
  "js_sub a b = js_add a (js_neg b)"

text \<open>The sign of an infinite product; a zero factor gives NaN.\<close>

definition inf_times :: "bool \<Rightarrow> rat \<Rightarrow> jsnum" where
  "inf_times positive a =
     (if a = 0 then NaN else if (0 < a) = positive then PosInf else NegInf)"

fun js_mul :: "jsnum \<Rightarrow> jsnum \<Rightarrow> jsnum" where
  "js_mul NaN _ = NaN"
| "js_mul _ NaN = NaN"
| "js_mul (Fin a) (Fin b) = Fin (a * b)"
| "js_mul (Fin a) PosInf = inf_times True a"
| "js_mul (Fin a) NegInf = inf_times False a"
| "js_mul PosInf (Fin b) = inf_times True b"
| "js_mul NegInf (Fin b) = inf_times False b"
| "js_mul PosInf PosInf = PosInf"
| "js_mul NegInf NegInf = PosInf"
| "js_mul PosInf NegInf = NegInf"
| "js_mul NegInf PosInf = NegInf"

text \<open>
  \<open>a / b\<close> for two lengths (non-negative integers): \<open>0 / 0\<close> is NaN and \<open>a / 0\<close> is
  \<open>Infinity\<close>.
\<close>

definition js_div_nat :: "nat \<Rightarrow> nat \<Rightarrow> jsnum" where
  "js_div_nat a b =
     (if b = 0 then (if a = 0 then NaN else PosInf) else Fin (of_nat a / of_nat b))"

subsection \<open>String to number\<close>

text \<open>
  The conversion that \<open>string < number\<close> applies to its left operand: white space is
  trimmed; the empty string is 0; then a binary, octal or hexadecimal literal without
  sign, or an optionally signed \<open>Infinity\<close> or decimal literal with optional fraction
  and exponent; everything else is NaN.
\<close>

definition digit_val :: "char \<Rightarrow> nat option" where
  "digit_val c =
     map_of
       [(CHR ''0'', 0), (CHR ''1'', 1), (CHR ''2'', 2), (CHR ''3'', 3), (CHR ''4'', 4),
        (CHR ''5'', 5), (CHR ''6'', 6), (CHR ''7'', 7), (CHR ''8'', 8), (CHR ''9'', 9),
        (CHR ''a'', 10), (CHR ''b'', 11), (CHR ''c'', 12), (CHR ''d'', 13), (CHR ''e'', 14),
        (CHR ''f'', 15), (CHR ''A'', 10), (CHR ''B'', 11), (CHR ''C'', 12), (CHR ''D'', 13),
        (CHR ''E'', 14), (CHR ''F'', 15)] c"

fun digits_val :: "nat \<Rightarrow> nat \<Rightarrow> string \<Rightarrow> nat option" where
  "digits_val base acc [] = Some acc"
| "digits_val base acc (c # cs) =
     (case digit_val c of
        None \<Rightarrow> None
      | Some v \<Rightarrow> if v < base then digits_val base (acc * base + v) cs else None)"

text \<open>A non-empty run of digits in the given base.\<close>

definition parse_digits :: "nat \<Rightarrow> string \<Rightarrow> nat option" where
  "parse_digits base s = (if s = [] then None else digits_val base 0 s)"

text \<open>A possibly empty run of decimal digits (around the decimal point).\<close>

definition parse_digits0 :: "string \<Rightarrow> nat option" where
  "parse_digits0 s = digits_val 10 0 s"

definition is_exp_char :: "char \<Rightarrow> bool" where
  "is_exp_char c = (c = CHR ''e'' \<or> c = CHR ''E'')"

text \<open>\<open>[+-]? digits\<close>, the exponent after \<open>e\<close>.\<close>

definition parse_signed_int :: "string \<Rightarrow> int option" where
  "parse_signed_int s =
     (case s of
        [] \<Rightarrow> None
      | c # cs \<Rightarrow>
          if c = CHR ''-'' then map_option (\<lambda>n. - int n) (parse_digits 10 cs)
          else if c = CHR ''+'' then map_option int (parse_digits 10 cs)
          else map_option int (parse_digits 10 s))"

text \<open>\<open>digits [. digits?]\<close> or \<open>. digits\<close>: the mantissa.\<close>

definition parse_mantissa :: "string \<Rightarrow> rat option" where
  "parse_mantissa s =
     (let ip = takeWhile (\<lambda>c. c \<noteq> CHR ''.'') s;
          rest = dropWhile (\<lambda>c. c \<noteq> CHR ''.'') s
      in case rest of
           [] \<Rightarrow> map_option of_nat (parse_digits 10 ip)
         | _ # fp \<Rightarrow>
             if ip = [] \<and> fp = [] then None
             else (case (parse_digits0 ip, parse_digits0 fp) of
                     (Some i, Some f) \<Rightarrow> Some (of_nat i + of_nat f / 10 ^ length fp)
                   | _ \<Rightarrow> None))"

definition pow10 :: "int \<Rightarrow> rat" where
  "pow10 e = (if 0 \<le> e then 10 ^ nat e else 1 / 10 ^ nat (- e))"

definition parse_unsigned_decimal :: "string \<Rightarrow> jsnum" where
  "parse_unsigned_decimal s =
     (if s = ''Infinity'' then PosInf
      else
        let m = takeWhile (\<lambda>c. \<not> is_exp_char c) s;
            rest = dropWhile (\<lambda>c. \<not> is_exp_char c) s
        in case rest of
             [] \<Rightarrow> (case parse_mantissa m of None \<Rightarrow> NaN | Some v \<Rightarrow> Fin v)
           | _ # ex \<Rightarrow>
               (case (parse_mantissa m, parse_signed_int ex) of
                  (Some v, Some e) \<Rightarrow> Fin (v * pow10 e)
                | _ \<Rightarrow> NaN))"

definition parse_radix :: "string \<Rightarrow> jsnum option" where
  "parse_radix s =
     (case s of
        c0 # c1 # ds \<Rightarrow>
          if c0 = CHR ''0'' \<and> (c1 = CHR ''x'' \<or> c1 = CHR ''X'') then
            Some (case parse_digits 16 ds of None \<Rightarrow> NaN | Some n \<Rightarrow> Fin (of_nat n))
          else if c0 = CHR ''0'' \<and> (c1 = CHR ''o'' \<or> c1 = CHR ''O'') then
            Some (case parse_digits 8 ds of None \<Rightarrow> NaN | Some n \<Rightarrow> Fin (of_nat n))
          else if c0 = CHR ''0'' \<and> (c1 = CHR ''b'' \<or> c1 = CHR ''B'') then
            Some (case parse_digits 2 ds of None \<Rightarrow> NaN | Some n \<Rightarrow> Fin (of_nat n))
          else None
      | _ \<Rightarrow> None)"

definition js_ToNumber :: "string \<Rightarrow> jsnum" where
  "js_ToNumber s =
     (let t = trim s in
      if t = [] then Fin 0
      else case parse_radix t of
             Some v \<Rightarrow> v
           | None \<Rightarrow>
               (case t of
                  c # cs \<Rightarrow>
                    if c = CHR ''-'' then js_neg (parse_unsigned_decimal cs)
                    else if c = CHR ''+'' then parse_unsigned_decimal cs
                    else parse_unsigned_decimal t
                | [] \<Rightarrow> Fin 0))"

text \<open>\<open>str < n\<close> for a string and a number.\<close>

definition js_string_lt :: "string \<Rightarrow> rat \<Rightarrow> bool" where
  "js_string_lt s n = js_lt (js_ToNumber s) (Fin n)"


section \<open>The document tree\<close>

text \<open>
  The tree that the caller hands over as a Cheerio reference.  An element carries a
  number \<open>nid\<close> that stands for the identity of the JavaScript object: the program keeps
  references to elements while it changes the tree around them.  The text of a text
  node is the decoded text.
\<close>

datatype node =
    Element (nid: nat) (name: string) (attribs: "(string \<times> string) list") (children: "node list")
  | Text string
  | Comment string

fun is_element :: "node \<Rightarrow> bool" where
  "is_element (Element i t a cs) = True"
| "is_element (Text s) = False"
| "is_element (Comment s) = False"

fun is_comment :: "node \<Rightarrow> bool" where
  "is_comment (Comment s) = True"
| "is_comment (Element i t a cs) = False"
| "is_comment (Text s) = False"

text \<open>\<open>$(e).contents()\<close> and \<open>$(e).children()\<close>: all child nodes, the child elements.\<close>

fun contents :: "node \<Rightarrow> node list" where
  "contents (Element i t a cs) = cs"
| "contents (Text s) = []"
| "contents (Comment s) = []"

definition element_children :: "node \<Rightarrow> node list" where
  "element_children e = filter is_element (contents e)"

text \<open>\<open>$(e).attr(k)\<close>: \<open>None\<close> is \<open>undefined\<close>.\<close>

fun attr :: "string \<Rightarrow> node \<Rightarrow> string option" where
  "attr k (Element i t a cs) = map_of a k"
| "attr k (Text s) = None"
| "attr k (Comment s) = None"

text \<open>\<open>$(e).text()\<close>: the text nodes below \<open>e\<close>, in document order.\<close>

fun node_text :: "node \<Rightarrow> string" where
  "node_text (Element i t a cs) = concat (map node_text cs)"
| "node_text (Text s) = s"
| "node_text (Comment s) = []"

text \<open>The elements of a subtree in document order, its root first.\<close>

fun subtree :: "node \<Rightarrow> node list" where
  "subtree (Element i t a cs) = Element i t a cs # concat (map subtree cs)"
| "subtree (Text s) = []"
| "subtree (Comment s) = []"

definition descendants :: "node \<Rightarrow> node list" where
  "descendants e = concat (map subtree (contents e))"

fun has_id :: "nat \<Rightarrow> node \<Rightarrow> bool" where
  "has_id i (Element j t a cs) = (j = i)"
| "has_id i (Text s) = False"
| "has_id i (Comment s) = False"

subsection \<open>Selectors\<close>

text \<open>
  The selector engine is Cheerio's.  The selectors of \<open>index.js\<close> are comma-separated
  lists of a tag name, \<open>.class\<close>, \<open>#id\<close>, \<open>*\<close> or \<open>tag[attr=value]\<close>; the strings a
  caller passes (\<open>removeTags\<close>, \<open>htmlSelector\<close>) are read the same way.
\<close>

datatype simple_selector =
    Tag string
  | Class string
  | Ident string
  | TagAttr string string string
  | Universal

definition parse_simple :: "string \<Rightarrow> simple_selector" where
  "parse_simple s =
     (case s of
        [] \<Rightarrow> Tag []
      | c # cs \<Rightarrow>
          if c = CHR ''.'' then Class cs
          else if c = CHR ''#'' then Ident cs
          else if s = ''*'' then Universal
          else if CHR ''['' \<in> set s then
            (let t = takeWhile (\<lambda>x. x \<noteq> CHR ''['') s;
                 kv = takeWhile (\<lambda>x. x \<noteq> CHR '']'') (drop 1 (dropWhile (\<lambda>x. x \<noteq> CHR ''['') s))
             in TagAttr t (takeWhile (\<lambda>x. x \<noteq> CHR ''='') kv)
                  (drop 1 (dropWhile (\<lambda>x. x \<noteq> CHR ''='') kv)))
          else Tag s)"

definition parse_selector :: "string \<Rightarrow> simple_selector list" where
  "parse_selector s = map (\<lambda>x. parse_simple (trim x)) (split_char CHR '','' s)"

text \<open>The words of a \<open>class\<close> attribute.\<close>

definition class_names :: "string \<Rightarrow> string list" where
  "class_names v = filter (\<lambda>w. w \<noteq> []) (split_char CHR '' '' (collapse_spaces v))"

fun matches_simple :: "node \<Rightarrow> simple_selector \<Rightarrow> bool" where
  "matches_simple e (Tag t) = (name e = t)"
| "matches_simple e (Class c) =
     (case attr ''class'' e of None \<Rightarrow> False | Some v \<Rightarrow> c \<in> set (class_names v))"
| "matches_simple e (Ident i) = (attr ''id'' e = Some i)"
| "matches_simple e (TagAttr t k v) = (name e = t \<and> attr k e = Some v)"
| "matches_simple e Universal = True"

definition matches :: "simple_selector list \<Rightarrow> node \<Rightarrow> bool" where
  "matches sel e = (is_element e \<and> list_ex (matches_simple e) sel)"

text \<open>\<open>$(e).find(selector)\<close> and \<open>$(e).children(selector)\<close> for one element \<open>e\<close>.\<close>

definition find_in :: "string \<Rightarrow> node \<Rightarrow> node list" where
  "find_in sel e = filter (matches (parse_selector sel)) (descendants e)"

definition children_matching :: "string \<Rightarrow> node \<Rightarrow> node list" where
  "children_matching sel e = filter (matches (parse_selector sel)) (element_children e)"

text \<open>Keep the first of the elements that are the same object.\<close>

fun uniq :: "node list \<Rightarrow> node list" where
  "uniq [] = []"
| "uniq (e # es) = e # uniq (filter (\<lambda>x. nid x \<noteq> nid e) es)"

text \<open>
  \<open>selection.find(selector)\<close> for a selection of several elements: what each of them
  finds, one after the other, an element that several of them find taken once.
\<close>

definition find_all :: "string \<Rightarrow> node list \<Rightarrow> node list" where
  "find_all sel es = uniq (concat (map (find_in sel) es))"

subsection \<open>The tree as the program changes it\<close>

text \<open>
  \<open>root\<close> is the document; \<open>detached\<close> holds the subtrees that \<open>remove()\<close> and
  \<open>replaceWith()\<close> have cut out of their parents, oldest first: the program still
  holds references into them.
\<close>

record dom =
  root :: node
  detached :: "node list"

definition all_elements :: "dom \<Rightarrow> node list" where
  "all_elements d = concat (map subtree (root d # detached d))"

text \<open>
  \<open>$(x)\<close> for a reference \<open>x\<close> to an element: the element as it is now, in the
  document or in a subtree taken out of it; \<open>None\<close> for a number that no element has.
\<close>

definition lookup :: "nat \<Rightarrow> dom \<Rightarrow> node option" where
  "lookup i d = find (has_id i) (all_elements d)"

definition lookup_all :: "nat list \<Rightarrow> dom \<Rightarrow> node list" where
  "lookup_all ids d = concat (map (\<lambda>i. case lookup i d of None \<Rightarrow> [] | Some e \<Rightarrow> [e]) ids)"

text \<open>\<open>$(selector)\<close> searches the document; \<open>$('body')\<close> are its body elements.\<close>

definition select :: "string \<Rightarrow> dom \<Rightarrow> node list" where
  "select sel d = filter (matches (parse_selector sel)) (subtree (root d))"

definition body_find :: "string \<Rightarrow> dom \<Rightarrow> node list" where
  "body_find sel d = find_all sel (select ''body'' d)"

text \<open>Replace every child, at any depth, that is the element \<open>i\<close> by the nodes \<open>new\<close>.\<close>

fun subst_id :: "nat \<Rightarrow> node list \<Rightarrow> node \<Rightarrow> node" where
  "subst_id i new (Element j t a cs) =
     Element j t a (concat (map (\<lambda>c. if has_id i c then new else [subst_id i new c]) cs))"
| "subst_id i new (Text s) = Text s"
| "subst_id i new (Comment s) = Comment s"

text \<open>The subtrees that \<open>subst_id i\<close> takes out of a tree: those of the element \<open>i\<close>.\<close>

fun cut_id :: "nat \<Rightarrow> node \<Rightarrow> node list" where
  "cut_id i (Element j t a cs) = concat (map (\<lambda>c. if has_id i c then [c] else cut_id i c) cs)"
| "cut_id i (Text s) = []"
| "cut_id i (Comment s) = []"

text \<open>
  \<open>$(x).replaceWith(new)\<close>: the element leaves its parent with its subtree, which
  joins \<open>detached\<close>, and \<open>new\<close> takes its place.  An element without a parent (the
  root of a tree) stays.  \<open>$(x).remove()\<close> is the same with nothing in its place.
\<close>

definition replace_node :: "nat \<Rightarrow> node list \<Rightarrow> dom \<Rightarrow> dom" where
  "replace_node i new d =
     \<lparr> root = subst_id i new (root d),
       detached = map (subst_id i new) (detached d)
                    @ concat (map (cut_id i) (root d # detached d)) \<rparr>"

definition remove_node :: "nat \<Rightarrow> dom \<Rightarrow> dom" where
  "remove_node i d = replace_node i [] d"

text \<open>\<open>selection.remove()\<close>: each element of the selection in turn.\<close>

definition remove_nodes :: "node list \<Rightarrow> dom \<Rightarrow> dom" where
  "remove_nodes es d = fold (\<lambda>e. remove_node (nid e)) es d"

text \<open>
  \<open>selection.each((i, x) => ...)\<close> where the body changes the tree: the elements are
  those selected before the loop, each read as it is when its turn comes.
\<close>

definition each_node :: "(node \<Rightarrow> dom \<Rightarrow> dom) \<Rightarrow> node list \<Rightarrow> dom \<Rightarrow> dom" where
  "each_node f es d =
     fold (\<lambda>e d'. case lookup (nid e) d' of None \<Rightarrow> d' | Some x \<Rightarrow> f x d') es d"

text \<open>Give the element \<open>i\<close> new child nodes.\<close>

fun set_contents :: "nat \<Rightarrow> node list \<Rightarrow> node \<Rightarrow> node" where
  "set_contents i new (Element j t a cs) =
     (if j = i then Element j t a new else Element j t a (map (set_contents i new) cs))"
| "set_contents i new (Text s) = Text s"
| "set_contents i new (Comment s) = Comment s"

definition update_contents :: "nat \<Rightarrow> node list \<Rightarrow> dom \<Rightarrow> dom" where
  "update_contents i new d =
     \<lparr> root = set_contents i new (root d), detached = map (set_contents i new) (detached d) \<rparr>"

text \<open>The ancestors of the element \<open>i\<close> inside one tree, the parent first.\<close>

fun first_some :: "'a option list \<Rightarrow> 'a option" where
  "first_some [] = None"
| "first_some (None # xs) = first_some xs"
| "first_some (Some x # xs) = Some x"

fun ancestors_in :: "nat \<Rightarrow> node \<Rightarrow> node list option" where
  "ancestors_in i (Element j t a cs) =
     (if j = i then Some []
      else (case first_some (map (ancestors_in i) cs) of
              None \<Rightarrow> None
            | Some up \<Rightarrow> Some (up @ [Element j t a cs])))"
| "ancestors_in i (Text s) = None"
| "ancestors_in i (Comment s) = None"

text \<open>\<open>$(x).parents()\<close> and \<open>$(x).parent()['0']\<close>.\<close>

definition parents :: "nat \<Rightarrow> dom \<Rightarrow> node list" where
  "parents i d =
     (case first_some (map (ancestors_in i) (root d # detached d)) of
        None \<Rightarrow> [] | Some up \<Rightarrow> up)"

definition parent :: "nat \<Rightarrow> dom \<Rightarrow> node option" where
  "parent i d = (case parents i d of [] \<Rightarrow> None | p # _ \<Rightarrow> Some p)"

text \<open>
  A markup string that the program builds from \<open>html()\<close> and parses again makes new
  objects: copies of the nodes under numbers that no element has yet.
\<close>

fun max_id :: "node \<Rightarrow> nat" where
  "max_id (Element i t a cs) = fold max (map max_id cs) i"
| "max_id (Text s) = 0"
| "max_id (Comment s) = 0"

definition fresh_id :: "dom \<Rightarrow> nat" where
  "fresh_id d = Suc (fold max (map max_id (root d # detached d)) 0)"

fun renumber :: "nat \<Rightarrow> node \<Rightarrow> node \<times> nat"
  and renumber_list :: "nat \<Rightarrow> node list \<Rightarrow> node list \<times> nat" where
  "renumber k (Element i t a cs) =
     (case renumber_list (Suc k) cs of (cs', k') \<Rightarrow> (Element k t a cs', k'))"
| "renumber k (Text s) = (Text s, k)"
| "renumber k (Comment s) = (Comment s, k)"
| "renumber_list k [] = ([], k)"
| "renumber_list k (c # cs) =
     (case renumber k c of
        (c', k1) \<Rightarrow> (case renumber_list k1 cs of (cs', k2) \<Rightarrow> (c' # cs', k2)))"


section \<open>The program: constants and options\<close>

definition HEADERS :: string where
  "HEADERS = ''h1,h2,h3,h4,h5,h6,h7''"

definition DIV_ARTICLE :: string where
  "DIV_ARTICLE = ''article,.article,#article,section,table,.container''"

definition BASIC_CONTENT :: string where
  "BASIC_CONTENT = ''p,h1,h2,h3,h4,h5,h6,h7''"

definition BAD_TAGS :: string where
  "BAD_TAGS = ''script,link,header,style,noscript,object,footer,nav,iframe,br,svg''"

definition N0T_A_GOOD_CLASS :: string where
  "N0T_A_GOOD_CLASS =
     ''.combx,.comment,.disqus,.foot,.header,.menu,.meta,.nav,.rss,.shoutbox,.sidebar,.sponsor,.ssba,.bctt-click-to-tweet,.promo,.promotion''"

definition N0T_A_GOOD_ID :: string where
  "N0T_A_GOOD_ID =
     ''#combx,#comments,#disqus,#foot,#header,#menu,#meta,#nav,#rss,#shoutbox,#sidebar,#sponsor,#promo,#promotion,#ads''"

definition CLASS_WEIGHT :: int where
  "CLASS_WEIGHT = 25"

definition MIN_LINK_DENSITY :: rat where
  "MIN_LINK_DENSITY = 33 / 100"

definition VERY_GOOD_SCORE :: int where
  "VERY_GOOD_SCORE = 5"

definition GOOD_SCORE :: int where
  "GOOD_SCORE = 3"

definition BAD_SCORE :: int where
  "BAD_SCORE = - 3"

definition VERY_BAD_SCORE :: int where
  "VERY_BAD_SCORE = - 5"

definition HALF :: rat where
  "HALF = 2"

definition NBR_CHARS :: nat where
  "NBR_CHARS = 100"

definition EXTRA_SCORE :: nat where
  "EXTRA_SCORE = 3"

definition MIN_CHARS :: rat where
  "MIN_CHARS = 25"

definition HTML :: string where
  "HTML = ''html''"

definition MD :: string where
  "MD = ''md''"

definition TXT :: string where
  "TXT = ''txt''"

text \<open>The alternatives of \<open>REGEX.positiveRe\<close> and \<open>REGEX.negativeRe\<close>.\<close>

definition positiveRe :: "string list" where
  "positiveRe =
     [''article'', ''body'', ''content'', ''entry'', ''hentry'', ''page'', ''pagination'',
      ''post'', ''text'']"

definition negativeRe :: "string list" where
  "negativeRe =
     [''combx'', ''comment'', ''contact'', ''foot'', ''footer'', ''footnote'', ''link'',
      ''media'', ''meta'', ''promo'', ''related'', ''scroll'', ''shoutbox'', ''sponsor'',
      ''tags'', ''widget'']"

text \<open>
  The options object.  \<open>None\<close> is a key that the object does not have; the flags are
  booleans, \<open>removeTags\<close> and \<open>htmlSelector\<close> are strings.
\<close>

record options =
  opt_useFirstH1 :: "bool option"
  opt_removeH1FromContent :: "bool option"
  opt_removeHeadersWithoutText :: "bool option"
  opt_removeImages :: "bool option"
  opt_removeFigcaptions :: "bool option"
  opt_replaceLinks :: "bool option"
  opt_removeForm :: "bool option"
  opt_removeEmptyTag :: "bool option"
  opt_removeTags :: "string option"
  opt_htmlSelector :: "string option"

definition defaultOptions :: options where
  "defaultOptions =
     \<lparr> opt_useFirstH1 = Some True,
       opt_removeH1FromContent = Some True,
       opt_removeHeadersWithoutText = Some True,
       opt_removeImages = Some True,
       opt_removeFigcaptions = Some True,
       opt_replaceLinks = Some True,
       opt_removeForm = Some False,
       opt_removeEmptyTag = Some False,
       opt_removeTags = None,
       opt_htmlSelector = None \<rparr>"

text \<open>
  One key of \<open>{ ...a, ...b }\<close>: the value of \<open>b\<close> where \<open>b\<close> has the key, that of \<open>a\<close>
  otherwise.
\<close>

definition spread_key :: "'a option \<Rightarrow> 'a option \<Rightarrow> 'a option" where
  "spread_key a b = (case b of Some v \<Rightarrow> Some v | None \<Rightarrow> a)"

definition spread :: "options \<Rightarrow> options \<Rightarrow> options" where
  "spread a b =
     \<lparr> opt_useFirstH1 = spread_key (opt_useFirstH1 a) (opt_useFirstH1 b),
       opt_removeH1FromContent = spread_key (opt_removeH1FromContent a) (opt_removeH1FromContent b),
       opt_removeHeadersWithoutText =
         spread_key (opt_removeHeadersWithoutText a) (opt_removeHeadersWithoutText b),
       opt_removeImages = spread_key (opt_removeImages a) (opt_removeImages b),
       opt_removeFigcaptions = spread_key (opt_removeFigcaptions a) (opt_removeFigcaptions b),
       opt_replaceLinks = spread_key (opt_replaceLinks a) (opt_replaceLinks b),
       opt_removeForm = spread_key (opt_removeForm a) (opt_removeForm b),
       opt_removeEmptyTag = spread_key (opt_removeEmptyTag a) (opt_removeEmptyTag b),
       opt_removeTags = spread_key (opt_removeTags a) (opt_removeTags b),
       opt_htmlSelector = spread_key (opt_htmlSelector a) (opt_htmlSelector b) \<rparr>"

text \<open>Truthiness: of a flag, of a string, and of a Cheerio object (any object is truthy).\<close>

definition flag :: "bool option \<Rightarrow> bool" where
  "flag b = (b = Some True)"

definition truthy_string :: "string option \<Rightarrow> bool" where
  "truthy_string s = (case s of None \<Rightarrow> False | Some v \<Rightarrow> v \<noteq> [])"

definition truthy_selection :: "'a list \<Rightarrow> bool" where
  "truthy_selection sel = True"

datatype js_error = ContentNotFound | TypeError

text \<open>A loop whose body can throw.\<close>

fun fold_err :: "('a \<Rightarrow> 's \<Rightarrow> js_error + 's) \<Rightarrow> 'a list \<Rightarrow> 's \<Rightarrow> js_error + 's" where
  "fold_err f [] s = Inr s"
| "fold_err f (x # xs) s = (case f x s of Inl e \<Rightarrow> Inl e | Inr s' \<Rightarrow> fold_err f xs s')"

section \<open>Shared heuristics\<close>

text \<open>\<open>getContentScore\<close> (index.js, line 579).\<close>

definition getContentScore :: "string \<Rightarrow> int" where
  "getContentScore elementName =
     (if toUpperCase elementName = ''DIV'' then VERY_GOOD_SCORE
      else if elementName \<in> set [''PRE'', ''TD'', ''BLOCKQUOTE''] then GOOD_SCORE
      else if elementName \<in> set [''ADDRESS'', ''OL'', ''UL'', ''DL'', ''DD'', ''DT'', ''LI'', ''FORM'']
        then BAD_SCORE
      else if elementName \<in> set [''H1'', ''H2'', ''H3'', ''H4'', ''H5'', ''H6'', ''TH'']
        then VERY_BAD_SCORE
      else 0)"

text \<open>
  \<open>getClassWeight\<close> (index.js, line 598).  \<open>attr_weight\<close> is the block that the function
  runs for the \<open>class\<close> attribute and again for the \<open>id\<close> attribute.
\<close>

definition attr_weight :: "string option \<Rightarrow> int" where
  "attr_weight v =
     (case v of
        None \<Rightarrow> 0
      | Some c \<Rightarrow>
          if c = [] then 0
          else (if search_words negativeRe c then - CLASS_WEIGHT else 0)
             + (if search_words positiveRe c then CLASS_WEIGHT else 0))"

definition getClassWeight :: "node \<Rightarrow> int" where
  "getClassWeight element = attr_weight (attr ''class'' element) + attr_weight (attr ''id'' element)"

text \<open>\<open>getLinkDensity\<close> (index.js, line 637).\<close>

definition getLinkDensity :: "node \<Rightarrow> jsnum" where
  "getLinkDensity element =
     (let textLength = length (removeExtraChars (node_text element));
          linkLength = sum_list (map (\<lambda>a. length (node_text a)) (find_in ''a'' element))
      in js_div_nat linkLength textLength)"

section \<open>Metadata\<close>

text \<open>\<open>getTitle\<close>, \<open>getDescription\<close>, \<open>getH1\<close>, \<open>getFirstH1\<close> (index.js, lines 157 to 198).
  \<open>None\<close> is \<open>null\<close> or \<open>undefined\<close>.\<close>

definition getTitle :: "dom \<Rightarrow> string option" where
  "getTitle d =
     (if truthy_selection (select ''title'' d)
      then Some (removeLineBreakTabs (concat (map node_text (select ''title'' d))))
      else None)"

definition getDescription :: "dom \<Rightarrow> string option" where
  "getDescription d =
     (if truthy_selection (select ''meta[name=description]'' d)
      then removeLineBreakTabs
             (case select ''meta[name=description]'' d of
                [] \<Rightarrow> None
              | m # _ \<Rightarrow> attr ''content'' m)
      else None)"

definition getFirstH1 :: "dom \<Rightarrow> string option" where
  "getFirstH1 d =
     (let h1s = filter (\<lambda>text. text \<noteq> [])
                  (map (\<lambda>h1. removeLineBreakTabs (node_text h1)) (body_find ''h1'' d))
      in case h1s of [] \<Rightarrow> None | text # _ \<Rightarrow> Some text)"

definition getH1 :: "dom \<Rightarrow> bool \<Rightarrow> string option" where
  "getH1 d useFirstH1 =
     (let nbrH1 = length (body_find ''h1'' d)
      in if nbrH1 = 0 then Some []
         else if nbrH1 = 1 \<or> useFirstH1 then getFirstH1 d
         else Some [])"

section \<open>Tree sanitizer\<close>

text \<open>\<open>removeTags\<close> (index.js, line 232).\<close>

definition removeTags :: "string \<Rightarrow> dom \<Rightarrow> dom" where
  "removeTags tagsToRemoves d =
     fold (\<lambda>tag d'. remove_nodes (body_find tag d') d') (split_tags tagsToRemoves) d"

text \<open>\<open>removeHeadersWithoutText\<close> (index.js, line 427).\<close>

definition removeHeadersWithoutText :: "dom \<Rightarrow> dom" where
  "removeHeadersWithoutText d =
     each_node (\<lambda>header d'.
                 if getClassWeight header < 0
                    \<or> js_gt (getLinkDensity header) (Fin MIN_LINK_DENSITY)
                 then remove_node (nid header) d'
                 else d')
       (body_find HEADERS d) d"

text \<open>\<open>$('*').contents().filter(comment).remove()\<close>: every comment under an element
  of the document.\<close>

fun strip_comments :: "node \<Rightarrow> node" where
  "strip_comments (Element i t a cs) =
     Element i t a (map strip_comments (filter (\<lambda>c. \<not> is_comment c) cs))"
| "strip_comments (Text s) = Text s"
| "strip_comments (Comment s) = Comment s"

text \<open>\<open>cleanHTML\<close> (index.js, line 206).\<close>

definition cleanHTML :: "dom \<Rightarrow> options \<Rightarrow> dom" where
  "cleanHTML d opts =
     (let d1 = (if truthy_string (opt_removeTags opts)
                then removeTags (case opt_removeTags opts of Some s \<Rightarrow> s | None \<Rightarrow> []) d
                else d);
          d2 = remove_nodes
                 (body_find (BAD_TAGS @ (if flag (opt_removeForm opts) then '',form'' else [])) d1) d1;
          d3 = remove_nodes (body_find N0T_A_GOOD_CLASS d2) d2;
          d4 = remove_nodes (body_find N0T_A_GOOD_ID d3) d3;
          d5 = d4 \<lparr> root := strip_comments (root d4) \<rparr>
      in if flag (opt_removeHeadersWithoutText opts) then removeHeadersWithoutText d5 else d5)"

section \<open>Main-section locator\<close>

text \<open>\<open>findArticle\<close> (index.js, line 466): \<open>None\<close> is \<open>null\<close>.\<close>

definition findArticle :: "dom \<Rightarrow> node option" where
  "findArticle d =
     (let sectionTags = body_find DIV_ARTICLE d
      in fst (fold (\<lambda>s (selected, selectedParas).
                      let nbrParas = length (find_in ''p'' s)
                      in if selectedParas < nbrParas then (Some s, nbrParas)
                         else (selected, selectedParas))
                sectionTags (None, 0)))"

text \<open>
  The \<open>readability\<close> property that the program hangs on elements, keyed by the
  element: its \<open>contentScore\<close>, or \<open>None\<close> where the property is not set.
\<close>

record scoring =
  tree :: dom
  readability :: "nat \<Rightarrow> jsnum option"
  candidates :: "nat list"

text \<open>\<open>initializeElement\<close> (index.js, line 568).\<close>

definition initializeElement :: "node \<Rightarrow> (nat \<Rightarrow> jsnum option) \<Rightarrow> (nat \<Rightarrow> jsnum option)" where
  "initializeElement e r =
     r (nid e \<mapsto> js_add (Fin (of_int (getContentScore (name e)))) (Fin (of_int (getClassWeight e))))"

text \<open>
  The body of the loop of \<open>findGoodCandidates\<close> (index.js, lines 496 to 534) for the
  paragraph \<open>p\<close>.  \<open>$(p).text() < MIN_CHARS\<close> compares the text, a string, with the
  number 25.  Reading \<open>readability\<close> of a missing parent, or \<open>contentScore\<close> of a
  missing \<open>readability\<close>, throws.
\<close>

definition candidate_step :: "node \<Rightarrow> scoring \<Rightarrow> js_error + scoring" where
  "candidate_step p0 st =
     (case lookup (nid p0) (tree st) of
        None \<Rightarrow> Inl TypeError
      | Some p \<Rightarrow>
          let d1 = (if length (node_text p) = 0 then remove_node (nid p) (tree st) else tree st)
          in if js_string_lt (node_text p) MIN_CHARS then Inr (st \<lparr> tree := d1 \<rparr>)
             else
               let st1 = (if readability st (nid p) = None
                          then st \<lparr> tree := d1,
                                    readability := initializeElement p (readability st),
                                    candidates := candidates st @ [nid p] \<rparr>
                          else st \<lparr> tree := d1 \<rparr>)
               in case parent (nid p) d1 of
                    None \<Rightarrow> Inl TypeError
                  | Some par \<Rightarrow>
                      let st2 = (if readability st1 (nid par) = None
                                 then st1 \<lparr> readability := initializeElement par (readability st1),
                                            candidates := candidates st1 @ [nid par] \<rparr>
                                 else st1);
                          text = node_text p;
                          contentScore =
                            1 + length (split_char CHR '','' text)
                              + min (length text div NBR_CHARS) EXTRA_SCORE
                      in case readability st2 (nid p) of
                           None \<Rightarrow> Inl TypeError
                         | Some sp \<Rightarrow>
                             let r3 = (readability st2) (nid p \<mapsto> js_add sp (Fin (of_nat contentScore)))
                             in case r3 (nid par) of
                                  None \<Rightarrow> Inl TypeError
                                | Some spar \<Rightarrow>
                                    Inr (st2 \<lparr> readability :=
                                                r3 (nid par \<mapsto>
                                                      js_add spar (Fin (of_nat contentScore / HALF))) \<rparr>))"

text \<open>\<open>findGoodCandidates\<close> (index.js, line 491).\<close>

definition findGoodCandidates :: "dom \<Rightarrow> js_error + scoring" where
  "findGoodCandidates d =
     fold_err candidate_step (body_find ''p'' d)
       \<lparr> tree = d, readability = (\<lambda>i. None), candidates = [] \<rparr>"

text \<open>
  The body of the loop of \<open>getTopCandidate\<close> (index.js, lines 549 to 557) for the
  candidate \<open>c\<close>; the state is the \<open>readability\<close> of the elements and \<open>topCandidate\<close>.
\<close>

definition top_step ::
  "dom \<Rightarrow> nat \<Rightarrow> (nat \<Rightarrow> jsnum option) \<times> nat option
     \<Rightarrow> js_error + ((nat \<Rightarrow> jsnum option) \<times> nat option)" where
  "top_step d c st =
     (case st of (r, topCandidate) \<Rightarrow>
        (case (lookup c d, r c) of
           (Some e, Some score) \<Rightarrow>
             let scaled = js_mul score (js_sub (Fin 1) (getLinkDensity e));
                 r' = r (c \<mapsto> scaled)
             in (case topCandidate of
                   None \<Rightarrow> Inr (r', Some c)
                 | Some t \<Rightarrow>
                     (case r' t of
                        None \<Rightarrow> Inl TypeError
                      | Some top_score \<Rightarrow>
                          Inr (r', if js_gt scaled top_score then Some c else Some t)))
         | _ \<Rightarrow> Inl TypeError))"

text \<open>\<open>getTopCandidate\<close> (index.js, line 546).\<close>

definition getTopCandidate ::
  "dom \<Rightarrow> (nat \<Rightarrow> jsnum option) \<Rightarrow> nat list
     \<Rightarrow> js_error + ((nat \<Rightarrow> jsnum option) \<times> nat option)" where
  "getTopCandidate d r cands = fold_err (top_step d) cands (r, None)"

text \<open>\<open>findContentSection\<close> (index.js, line 445): the element found, or \<open>None\<close> for
  \<open>null\<close>, and the tree as the search leaves it.\<close>

definition findContentSection :: "dom \<Rightarrow> js_error + (nat option \<times> dom)" where
  "findContentSection d =
     (case findArticle d of
        Some article \<Rightarrow> Inr (Some (nid article), d)
      | None \<Rightarrow>
          (case findGoodCandidates d of
             Inl e \<Rightarrow> Inl e
           | Inr st \<Rightarrow>
               (case getTopCandidate (tree st) (readability st) (candidates st) of
                  Inl e \<Rightarrow> Inl e
                | Inr (r, topCandidate) \<Rightarrow> Inr (topCandidate, tree st))))"


section \<open>Content post-processor\<close>

text \<open>\<open>findImages\<close> (index.js, line 406).  \<open>contentSection\<close> is the selection, as the
  references it holds.\<close>

definition findImages ::
  "dom \<Rightarrow> nat list \<Rightarrow> options \<Rightarrow> (string option \<times> string option) list \<times> dom" where
  "findImages d contentSection opts =
     (let images = map (\<lambda>img. (attr ''src'' img, attr ''alt'' img))
                     (find_all ''img'' (lookup_all contentSection d))
      in (images,
          if flag (opt_removeImages opts) then remove_nodes (body_find ''img'' d) d else d))"

text \<open>
  What the parser makes of a string that is the text of an element: one text node,
  or nothing for the empty string (the text is taken to hold no markup).
\<close>

definition text_nodes :: "string \<Rightarrow> node list" where
  "text_nodes s = (if s = [] then [] else [Text s])"

text \<open>\<open>findLinks\<close> (index.js, line 384).\<close>

definition findLinks ::
  "dom \<Rightarrow> nat list \<Rightarrow> options \<Rightarrow> (string option \<times> string) list \<times> dom" where
  "findLinks d contentSection opts =
     fold (\<lambda>a0 (links, d').
            case lookup (nid a0) d' of
              None \<Rightarrow> (links, d')
            | Some a \<Rightarrow>
                (links @ [(removeLineBreakTabs (attr ''href'' a), removeLineBreakTabs (node_text a))],
                 if flag (opt_replaceLinks opts)
                 then replace_node (nid a) (text_nodes (removeLineBreakTabs (node_text a))) d'
                 else d'))
       (find_all ''a'' (lookup_all contentSection d)) ([], d)"

text \<open>\<open>findHeaders\<close> (index.js, line 362).\<close>

definition findHeaders :: "dom \<Rightarrow> nat list \<Rightarrow> (string \<times> string) list" where
  "findHeaders d contentSection =
     concat (map (\<lambda>header.
                    let text = removeLineBreakTabs (node_text header)
                    in if text \<noteq> [] \<and> trim text \<noteq> [] then [(name header, text)] else [])
               (find_all HEADERS (lookup_all contentSection d)))"

text \<open>\<open>removeH1FromContent\<close> (index.js, line 345).\<close>

definition removeH1FromContent :: "dom \<Rightarrow> nat list \<Rightarrow> dom" where
  "removeH1FromContent d contentSection =
     (let h1 = find_all ''h1'' (lookup_all contentSection d)
      in if length h1 = 1 then remove_nodes h1 d else d)"

text \<open>
  \<open>x.html()\<close> is \<open>None\<close> for \<open>null\<close> (an empty selection) and the child nodes of the
  first element otherwise: markup is kept as the nodes it stands for.  In a template
  string \<open>null\<close> reads \<open>null\<close>.
\<close>

definition html :: "node list \<Rightarrow> node list option" where
  "html sel = (case sel of [] \<Rightarrow> None | e # _ \<Rightarrow> Some (contents e))"

definition interpolate :: "node list option \<Rightarrow> node list" where
  "interpolate markup = (case markup of None \<Rightarrow> [Text ''null''] | Some ns \<Rightarrow> ns)"

text \<open>
  What Cheerio's parser for markup strings (htmlparser2) makes of
  \<open><thead>${markup}</thead>\<close> and of \<open><tbody>${markup}</tbody>\<close>, the new objects
  numbered from \<open>k\<close> in document order.  An opening \<open><td>\<close> closes the \<open><thead>\<close>
  that is open around it, and the \<open></thead>\<close> that comes later closes nothing: the
  \<open><thead>\<close> keeps the nodes before the first \<open><td>\<close> of the markup, and that \<open><td>\<close>
  and the nodes after it follow the \<open><thead>\<close> as its siblings.  A \<open><tbody>\<close> stays
  open.  Apart from that the markup of the nodes is taken to parse back to them.
\<close>

definition is_td :: "node \<Rightarrow> bool" where
  "is_td n = (is_element n \<and> name n = ''td'')"

definition parse_thead :: "nat \<Rightarrow> node list option \<Rightarrow> node list \<times> nat" where
  "parse_thead k markup =
     (case renumber_list (Suc k) (interpolate markup) of
        (ns, k') \<Rightarrow>
          (Element k ''thead'' [] (takeWhile (\<lambda>n. \<not> is_td n) ns)
             # dropWhile (\<lambda>n. \<not> is_td n) ns,
           k'))"

definition parse_tbody :: "nat \<Rightarrow> node list option \<Rightarrow> node list \<times> nat" where
  "parse_tbody k markup =
     (case renumber_list (Suc k) (interpolate markup) of
        (ns, k') \<Rightarrow> ([Element k ''tbody'' [] ns], k'))"

text \<open>
  \<open>addTableHeader\<close> (index.js, line 301) for the table \<open>t\<close>.  \<open>firstElement['0'].name\<close>
  throws when the table has no child element.
\<close>

definition addTableHeader :: "nat \<Rightarrow> dom \<Rightarrow> js_error + dom" where
  "addTableHeader t d =
     (let d1 = remove_nodes (find_all ''caption'' (lookup_all [t] d)) d
      in case lookup_all [t] d1 of
           [] \<Rightarrow> Inl TypeError
         | table # _ \<Rightarrow>
             (case element_children table of
                [] \<Rightarrow> Inl TypeError
              | firstElement # _ \<Rightarrow>
                  if name firstElement = ''tbody'' then
                    let firstRow = take 1 (element_children firstElement);
                        thead = fst (parse_thead (fresh_id d1) (html firstRow));
                        d2 = update_contents t (thead @ contents table) d1
                    in Inr (remove_nodes firstRow d2)
                  else
                    let headerHtml = html [firstElement];
                        d2 = remove_node (nid firstElement) d1;
                        rows = html (concat (map element_children (lookup_all [t] d2)));
                        d3 = remove_nodes (concat (map element_children (lookup_all [t] d2))) d2;
                        k = fresh_id d3
                    in case parse_thead k headerHtml of
                         (thead, k1) \<Rightarrow>
                           Inr (update_contents t
                                  (concat (map contents (lookup_all [t] d3))
                                     @ thead @ fst (parse_tbody k1 rows))
                                  d3)))"

text \<open>\<open>cleanContent\<close> (index.js, line 250).\<close>

definition cleanContent :: "dom \<Rightarrow> nat list \<Rightarrow> options \<Rightarrow> js_error + dom" where
  "cleanContent d contentSection opts =
     (let d1 = (if flag (opt_removeH1FromContent opts) then removeH1FromContent d contentSection
                else d);
          d2 = (if flag (opt_removeImages opts) \<and> flag (opt_removeFigcaptions opts)
                then each_node (\<lambda>x. remove_node (nid x))
                       (find_all ''figcaption'' (lookup_all contentSection d1)) d1
                else d1);
          d3 = (if flag (opt_removeEmptyTag opts)
                then each_node (\<lambda>x d'. if length (children_matching BASIC_CONTENT x) = 0
                                        then remove_node (nid x) d' else d')
                       (find_all ''div'' (lookup_all contentSection d2)) d2
                else d2);
          d4 = each_node (\<lambda>x d'. if length (element_children x) = 0
                                  then remove_node (nid x) d' else d')
                 (find_all ''div'' (lookup_all contentSection d3)) d3;
          d5 = each_node (\<lambda>x d'. if length (filter (\<lambda>a. name a = ''p'') (parents (nid x) d')) = 0
                                  then remove_node (nid x) d' else d')
                 (find_all ''span'' (lookup_all contentSection d4)) d4
      in fold_err (\<lambda>t0 d'.
                     case lookup (nid t0) d' of
                       None \<Rightarrow> Inr d'
                     | Some t \<Rightarrow>
                         if length (find_in ''thead'' t) = 0 then addTableHeader (nid t) d'
                         else Inr d')
           (find_all ''table'' (lookup_all contentSection d5)) d5)"

section \<open>Serializer and entry point\<close>

text \<open>\<open>getCleanText\<close> (index.js, line 141).\<close>

definition getCleanText :: "dom \<Rightarrow> nat list \<Rightarrow> string" where
  "getCleanText d contentSection =
     trim (concat (map node_text (find_all ''p'' (lookup_all contentSection d))))"

text \<open>
  The \<open>content\<close> of a result: markup (from \<open>html()\<close>), or the string of the text and
  markdown modes.
\<close>

datatype content_value = Markup "node list" | Plain string

record extraction =
  title :: "string option"
  description :: "string option"
  h1 :: "string option"
  images :: "(string option \<times> string option) list"
  links :: "(string option \<times> string) list"
  headers :: "(string \<times> string) list"
  content :: content_value

text \<open>
  \<open>findContent\<close> (index.js, line 78).  \<open>turndown\<close> is the markdown converter of
  \<open>convertToMD\<close>, a library outside the program.  \<open>$(x)\<close> of the element that
  \<open>findContentSection\<close> returns is the selection of that element, and the empty
  selection for \<open>null\<close>.  \<open>opts0\<close> is the parameter \<open>o\<close>.
\<close>

definition findContent ::
  "(node list \<Rightarrow> string) \<Rightarrow> dom \<Rightarrow> string \<Rightarrow> options \<Rightarrow> js_error + extraction" where
  "findContent turndown d0 type opts0 =
     (let opts = spread opts0 defaultOptions;
          result_title = getTitle d0;
          result_description = getDescription d0;
          result_h1 = getH1 d0 (flag (opt_useFirstH1 opts));
          d1 = cleanHTML d0 opts
      in case (if truthy_string (opt_htmlSelector opts)
               then Inr (map nid (select (case opt_htmlSelector opts of Some s \<Rightarrow> s | None \<Rightarrow> []) d1), d1)
               else (case findContentSection d1 of
                       Inl e \<Rightarrow> Inl e
                     | Inr (found, d2) \<Rightarrow>
                         Inr (case found of None \<Rightarrow> [] | Some x \<Rightarrow> [x], d2))) of
           Inl e \<Rightarrow> Inl e
         | Inr (content0, d2) \<Rightarrow>
             let contentSection =
                   (if truthy_selection content0 then content0 else map nid (select ''body'' d2))
             in case findImages d2 contentSection opts of
                  (result_images, d3) \<Rightarrow>
                    (case findLinks d3 contentSection opts of
                       (result_links, d4) \<Rightarrow>
                         let result_headers = findHeaders d4 contentSection
                         in case cleanContent d4 contentSection opts of
                              Inl e \<Rightarrow> Inl e
                            | Inr d5 \<Rightarrow>
                                (case html (lookup_all contentSection d5) of
                                   None \<Rightarrow> Inl ContentNotFound
                                 | Some markup \<Rightarrow>
                                     Inr \<lparr> title = result_title,
                                           description = result_description,
                                           h1 = result_h1,
                                           images = result_images,
                                           links = result_links,
                                           headers = result_headers,
                                           content =
                                             (if type = MD then Plain (turndown markup)
                                              else if type = TXT
                                                then Plain (getCleanText d5 contentSection)
                                              else Markup markup) \<rparr>)))"


section \<open>Example documents\<close>

text \<open>\<open><html><body>...</body></html>\<close> around the given nodes, before any change.\<close>

definition page :: "node list \<Rightarrow> dom" where
  "page body_nodes =
     \<lparr> root = Element 0 ''html'' [] [Element 1 ''body'' [] body_nodes], detached = [] \<rparr>"

text \<open>The options object \<open>{}\<close>.\<close>

definition no_options :: options where
  "no_options =
     \<lparr> opt_useFirstH1 = None,
       opt_removeH1FromContent = None,
       opt_removeHeadersWithoutText = None,
       opt_removeImages = None,
       opt_removeFigcaptions = None,
       opt_replaceLinks = None,
       opt_removeForm = None,
       opt_removeEmptyTag = None,
       opt_removeTags = None,
       opt_htmlSelector = None \<rparr>"

text \<open>\<open><p><a href="#">a   b</a></p>\<close>: three spaces inside the anchor.\<close>

definition spaced_anchor :: node where
  "spaced_anchor = Element 3 ''p'' [] [Element 4 ''a'' [(''href'', ''#'')] [Text ''a   b'']]"

text \<open>\<open><article><h1> T </h1><p>x</p></article>\<close>.\<close>

definition doc_padded_h1 :: dom where
  "doc_padded_h1 =
     page [Element 2 ''article'' []
             [Element 3 ''h1'' [] [Text '' T ''], Element 4 ''p'' [] [Text ''x'']]]"

text \<open>\<open><h1></h1><h1> T </h1>\<close>.\<close>

definition doc_two_h1 :: dom where
  "doc_two_h1 = page [Element 2 ''h1'' [] [], Element 3 ''h1'' [] [Text '' T '']]"

text \<open>\<open><article>intro</article><div><p>Some text, with commas</p></div>\<close>.\<close>

definition doc_bare_article :: dom where
  "doc_bare_article =
     page [Element 2 ''article'' [] [Text ''intro''],
           Element 3 ''div'' [] [Element 4 ''p'' [] [Text ''Some text, with commas'']]]"

text \<open>An article with one paragraph, then a section and an article with two each.\<close>

definition doc_three_sections :: dom where
  "doc_three_sections =
     page [Element 2 ''article'' [] [Element 3 ''p'' [] [Text ''a'']],
           Element 4 ''section'' [] [Element 5 ''p'' [] [Text ''b''], Element 6 ''p'' [] [Text ''c'']],
           Element 7 ''article'' [] [Element 8 ''p'' [] [Text ''d''], Element 9 ''p'' [] [Text ''e'']]]"

text \<open>\<open><div><p>a<a href="#">b</a></p></div>\<close>: half of the text is anchor text.\<close>

definition doc_half_link :: dom where
  "doc_half_link =
     page [Element 2 ''div'' []
             [Element 3 ''p'' [] [Text ''a'', Element 4 ''a'' [(''href'', ''#'')] [Text ''b'']]]]"

text \<open>\<open><img src="out.png" alt="o"><article><p>x</p><img src="in.png"></article>\<close>.\<close>

definition doc_images :: dom where
  "doc_images =
     page [Element 2 ''img'' [(''src'', ''out.png''), (''alt'', ''o'')] [],
           Element 3 ''article'' []
             [Element 4 ''p'' [] [Text ''x''], Element 5 ''img'' [(''src'', ''in.png'')] []]]"

text \<open>\<open><article><p>x</p><form><input></form><img src="a.png"></article>\<close>.\<close>

definition doc_form :: dom where
  "doc_form =
     page [Element 2 ''article'' []
             [Element 3 ''p'' [] [Text ''x''],
              Element 4 ''form'' [] [Element 5 ''input'' [] []],
              Element 6 ''img'' [(''src'', ''a.png'')] []]]"

text \<open>\<open><div>hello</div>\<close>: no container element and no paragraph.\<close>

definition doc_no_candidate :: dom where
  "doc_no_candidate = page [Element 2 ''div'' [] [Text ''hello'']]"

text \<open>\<open><div><p>hello</p></div>\<close>: a paragraph of five characters.\<close>

definition doc_short_paragraph :: dom where
  "doc_short_paragraph = page [Element 2 ''div'' [] [Element 3 ''p'' [] [Text ''hello'']]]"

text \<open>
  \<open><article><p>x</p><table><tr><td>H</td></tr><tr><td>1</td></tr><tr><td>2</td></tr></table></article>\<close>.
\<close>

definition doc_three_rows :: dom where
  "doc_three_rows =
     page [Element 2 ''article'' []
             [Element 3 ''p'' [] [Text ''x''],
              Element 4 ''table'' []
                [Element 5 ''tr'' [] [Element 6 ''td'' [] [Text ''H'']],
                 Element 7 ''tr'' [] [Element 8 ''td'' [] [Text ''1'']],
                 Element 9 ''tr'' [] [Element 10 ''td'' [] [Text ''2'']]]]]"

text \<open>\<open><article><p>x</p><table></table></article>\<close>.\<close>

definition doc_empty_table :: dom where
  "doc_empty_table =
     page [Element 2 ''article'' []
             [Element 3 ''p'' [] [Text ''x''], Element 4 ''table'' [] []]]"

section \<open>Auxiliary notions\<close>

text \<open>The step of the loop of \<open>findArticle\<close>, for any way of counting.\<close>

definition best_step :: "('a \<Rightarrow> nat) \<Rightarrow> 'a \<Rightarrow> 'a option \<times> nat \<Rightarrow> 'a option \<times> nat" where
  "best_step cnt s acc =
     (case acc of (selected, n) \<Rightarrow> if n < cnt s then (Some s, cnt s) else (selected, n))"

text \<open>
  What \<open>getTopCandidate\<close> stores for the candidate \<open>c\<close>: its score times
  \<open>1 - linkDensity\<close>.
\<close>

definition scaled_score :: "dom \<Rightarrow> (nat \<Rightarrow> jsnum option) \<Rightarrow> nat \<Rightarrow> jsnum option" where
  "scaled_score d r c =
     (case (lookup c d, r c) of
        (Some e, Some score) \<Rightarrow> Some (js_mul score (js_sub (Fin 1) (getLinkDensity e)))
      | _ \<Rightarrow> None)"

text \<open>The tree without the elements, at any depth below the root, whose number is in \<open>S\<close>.\<close>

fun in_ids :: "nat set \<Rightarrow> node \<Rightarrow> bool" where
  "in_ids S (Element j t a cs) = (j \<in> S)"
| "in_ids S (Text s) = False"
| "in_ids S (Comment s) = False"

fun prune :: "nat set \<Rightarrow> node \<Rightarrow> node" where
  "prune S (Element j t a cs) = Element j t a (map (prune S) (filter (\<lambda>c. \<not> in_ids S c) cs))"
| "prune S (Text s) = Text s"
| "prune S (Comment s) = Comment s"

text \<open>The element \<open>i\<close> is in the tree or in one of the subtrees taken out of it.\<close>

definition known :: "nat \<Rightarrow> dom \<Rightarrow> bool" where
  "known i d = (i \<in> nid ` set (all_elements d))"

text \<open>
  The state of the candidate collection is consistent: the candidates are distinct,
  they are the elements that carry a \<open>readability\<close>, and each is an element of the tree.
\<close>

definition scored :: "scoring \<Rightarrow> bool" where
  "scored st =
     (distinct (candidates st)
      \<and> (\<forall>i. (i \<in> set (candidates st)) = (readability st i \<noteq> None))
      \<and> (\<forall>c\<in>set (candidates st). known c (tree st)))"

section \<open>Link density\<close>

text \<open>
  C10.  The link density is not bounded by 1.  For \<open><p><a href="#">a   b</a></p>\<close> the
  anchor text has 5 characters, the collapsed text of the paragraph has 3, the density
  is 5/3 and the factor \<open>1 - linkDensity\<close> is negative; with that paragraph in a
  \<open><div></div>\<close>, \<open>getTopCandidate\<close> stores the negative scores -4/3 and -4.
\<close>

theorem getLinkDensity_above_one:
  "sum_list (map (\<lambda>a. length (node_text a)) (find_in ''a'' spaced_anchor)) = 5
   \<and> length (removeExtraChars (node_text spaced_anchor)) = 3
   \<and> getLinkDensity spaced_anchor = Fin (5 / 3)
   \<and> js_gt (getLinkDensity spaced_anchor) (Fin 1)
   \<and> js_lt (js_sub (Fin 1) (getLinkDensity spaced_anchor)) (Fin 0)
   \<and> (case findGoodCandidates (page [Element 2 ''div'' [] [spaced_anchor]]) of
        Inl e \<Rightarrow> False
      | Inr st \<Rightarrow>
          candidates st = [3, 2]
          \<and> (case getTopCandidate (tree st) (readability st) (candidates st) of
               Inl e \<Rightarrow> False
             | Inr (r, best) \<Rightarrow> r 3 = Some (Fin (- 4 / 3)) \<and> r 2 = Some (Fin (- 4)) \<and> best = Some 3))"
  by code_simp

section \<open>The primary heading\<close>

lemma first_nonempty:
  "(filter (\<lambda>t. t \<noteq> []) (map f xs) = [] \<and> (\<forall>x\<in>set xs. f x = []))
   \<or> (\<exists>pre h post. xs = pre @ h # post \<and> (\<forall>x\<in>set pre. f x = []) \<and> f h \<noteq> []
         \<and> filter (\<lambda>t. t \<noteq> []) (map f xs) = f h # filter (\<lambda>t. t \<noteq> []) (map f post))"
proof (induction xs)
  case Nil
  then show ?case by simp
next
  case (Cons x xs)
  show ?case
  proof (cases "f x = []")
    case True
    from Cons.IH show ?thesis
    proof
      assume "filter (\<lambda>t. t \<noteq> []) (map f xs) = [] \<and> (\<forall>x\<in>set xs. f x = [])"
      with True show ?thesis by simp
    next
      assume "\<exists>pre h post. xs = pre @ h # post \<and> (\<forall>x\<in>set pre. f x = []) \<and> f h \<noteq> []
         \<and> filter (\<lambda>t. t \<noteq> []) (map f xs) = f h # filter (\<lambda>t. t \<noteq> []) (map f post)"
      then obtain pre h post where
        "xs = pre @ h # post" "\<forall>x\<in>set pre. f x = []" "f h \<noteq> []"
        "filter (\<lambda>t. t \<noteq> []) (map f xs) = f h # filter (\<lambda>t. t \<noteq> []) (map f post)"
        by blast
      with True have
        "x # xs = (x # pre) @ h # post \<and> (\<forall>y\<in>set (x # pre). f y = []) \<and> f h \<noteq> []
         \<and> filter (\<lambda>t. t \<noteq> []) (map f (x # xs)) = f h # filter (\<lambda>t. t \<noteq> []) (map f post)"
        by simp
      then show ?thesis by blast
    qed
  next
    case False
    then have
      "x # xs = [] @ x # xs \<and> (\<forall>y\<in>set []. f y = []) \<and> f x \<noteq> []
       \<and> filter (\<lambda>t. t \<noteq> []) (map f (x # xs)) = f x # filter (\<lambda>t. t \<noteq> []) (map f xs)"
      by simp
    then show ?thesis by blast
  qed
qed

lemma getFirstH1_cases:
  "(if \<forall>h\<in>set (body_find ''h1'' d). node_text h = [] then getFirstH1 d = None
    else \<exists>pre h post. body_find ''h1'' d = pre @ h # post \<and> (\<forall>x\<in>set pre. node_text x = [])
           \<and> node_text h \<noteq> [] \<and> getFirstH1 d = Some (node_text h))"
  using first_nonempty [of node_text "body_find ''h1'' d"]
  by (fastforce simp add: getFirstH1_def removeLineBreakTabs_def)

text \<open>
  C7, as the claim states it, fails: the one \<open><h1> T </h1>\<close> of a document gives the
  \<open>h1\<close> field \<open>" T "\<close>, which is not its trimmed text \<open>"T"\<close>.
\<close>

theorem h1_field_is_not_trimmed:
  "length (body_find ''h1'' doc_padded_h1) = 1
   \<and> map node_text (body_find ''h1'' doc_padded_h1) = ['' T '']
   \<and> trim '' T '' = ''T''
   \<and> getH1 doc_padded_h1 True = Some '' T ''
   \<and> (case findContent (\<lambda>markup. []) doc_padded_h1 HTML no_options of
        Inl e \<Rightarrow> False
      | Inr result \<Rightarrow> h1 result = Some '' T '')"
  by code_simp

text \<open>
  C7, amended.  With no \<open><h1>\<close> in the body \<open>getH1\<close> gives the empty string.  With
  exactly one, or with two or more and \<open>useFirstH1\<close> in effect, it gives the text, as it
  is and not trimmed, of the first \<open><h1>\<close> whose text is not the empty string, and
  \<open>undefined\<close> when every \<open><h1>\<close> has the empty text.  With two or more and
  \<open>useFirstH1\<close> not in effect it gives the empty string.
\<close>

theorem getH1_cases:
  "(body_find ''h1'' d = [] \<longrightarrow> getH1 d useFirstH1 = Some [])
   \<and> (length (body_find ''h1'' d) = 1 \<or> (2 \<le> length (body_find ''h1'' d) \<and> useFirstH1) \<longrightarrow>
        (if \<forall>h\<in>set (body_find ''h1'' d). node_text h = [] then getH1 d useFirstH1 = None
         else \<exists>pre h post. body_find ''h1'' d = pre @ h # post \<and> (\<forall>x\<in>set pre. node_text x = [])
                \<and> node_text h \<noteq> [] \<and> getH1 d useFirstH1 = Some (node_text h)))
   \<and> (2 \<le> length (body_find ''h1'' d) \<and> \<not> useFirstH1 \<longrightarrow> getH1 d useFirstH1 = Some [])"
proof (intro conjI impI)
  assume "body_find ''h1'' d = []"
  then show "getH1 d useFirstH1 = Some []"
    by (simp add: getH1_def)
next
  assume "length (body_find ''h1'' d) = 1 \<or> (2 \<le> length (body_find ''h1'' d) \<and> useFirstH1)"
  then have "getH1 d useFirstH1 = getFirstH1 d"
    by (auto simp: getH1_def Let_def)
  then show "if \<forall>h\<in>set (body_find ''h1'' d). node_text h = [] then getH1 d useFirstH1 = None
         else \<exists>pre h post. body_find ''h1'' d = pre @ h # post \<and> (\<forall>x\<in>set pre. node_text x = [])
                \<and> node_text h \<noteq> [] \<and> getH1 d useFirstH1 = Some (node_text h)"
    using getFirstH1_cases [of d] by (simp only:)
next
  assume "2 \<le> length (body_find ''h1'' d) \<and> \<not> useFirstH1"
  then show "getH1 d useFirstH1 = Some []"
    by (auto simp: getH1_def Let_def)
qed

theorem getH1_cases_witness:
  "body_find ''h1'' (page []) = []
   \<and> getH1 (page []) True = Some []
   \<and> length (body_find ''h1'' doc_padded_h1) = 1
   \<and> (\<exists>pre h post. body_find ''h1'' doc_padded_h1 = pre @ h # post
         \<and> (\<forall>x\<in>set pre. node_text x = []) \<and> node_text h \<noteq> []
         \<and> getH1 doc_padded_h1 False = Some (node_text h))
   \<and> 2 \<le> length (body_find ''h1'' doc_two_h1)
   \<and> (\<exists>pre h post. body_find ''h1'' doc_two_h1 = pre @ h # post
         \<and> (\<forall>x\<in>set pre. node_text x = []) \<and> node_text h \<noteq> []
         \<and> getH1 doc_two_h1 True = Some (node_text h))
   \<and> getH1 doc_two_h1 False = Some []"
proof -
  have none: "body_find ''h1'' (page []) = []"
    by code_simp
  have one: "length (body_find ''h1'' doc_padded_h1) = 1"
    by code_simp
  have one_text: "\<not> (\<forall>h\<in>set (body_find ''h1'' doc_padded_h1). node_text h = [])"
    by code_simp
  have two: "2 \<le> length (body_find ''h1'' doc_two_h1)"
    by code_simp
  have two_text: "\<not> (\<forall>h\<in>set (body_find ''h1'' doc_two_h1). node_text h = [])"
    by code_simp
  have a: "getH1 (page []) True = Some []"
    using getH1_cases [of "page []" True] none by blast
  have b: "\<exists>pre h post. body_find ''h1'' doc_padded_h1 = pre @ h # post
         \<and> (\<forall>x\<in>set pre. node_text x = []) \<and> node_text h \<noteq> []
         \<and> getH1 doc_padded_h1 False = Some (node_text h)"
    using getH1_cases [of doc_padded_h1 False] one one_text by presburger
  have c: "\<exists>pre h post. body_find ''h1'' doc_two_h1 = pre @ h # post
         \<and> (\<forall>x\<in>set pre. node_text x = []) \<and> node_text h \<noteq> []
         \<and> getH1 doc_two_h1 True = Some (node_text h)"
    using getH1_cases [of doc_two_h1 True] two two_text by presburger
  have d: "getH1 doc_two_h1 False = Some []"
    using getH1_cases [of doc_two_h1 False] two by blast
  from none a one b two c d show ?thesis
    by blast
qed

section \<open>Phase A: the structural search\<close>

lemma best_step_simps:
  "n < cnt s \<Longrightarrow> best_step cnt s (sel, n) = (Some s, cnt s)"
  "\<not> n < cnt s \<Longrightarrow> best_step cnt s (sel, n) = (sel, n)"
  by (simp_all add: best_step_def)

lemma fold_best_none:
  "\<forall>x\<in>set xs. cnt x \<le> n \<Longrightarrow> fold (best_step cnt) xs (sel, n) = (sel, n)"
  by (induction xs) (auto simp: best_step_def)

lemma fold_best_some:
  "\<exists>x\<in>set xs. n < cnt x \<Longrightarrow>
   \<exists>pre s post. xs = pre @ s # post \<and> fold (best_step cnt) xs (sel, n) = (Some s, cnt s)
      \<and> n < cnt s \<and> (\<forall>x\<in>set pre. cnt x < cnt s) \<and> (\<forall>x\<in>set post. cnt x \<le> cnt s)"
proof (induction xs arbitrary: sel n)
  case Nil
  then show ?case by simp
next
  case (Cons x xs)
  show ?case
  proof (cases "n < cnt x")
    case True
    then have step:
      "fold (best_step cnt) (x # xs) (sel, n) = fold (best_step cnt) xs (Some x, cnt x)"
      by (simp add: best_step_simps)
    show ?thesis
    proof (cases "\<exists>y\<in>set xs. cnt x < cnt y")
      case False
      then have "fold (best_step cnt) xs (Some x, cnt x) = (Some x, cnt x)"
        by (intro fold_best_none) (auto simp: not_less)
      with step have
        "x # xs = [] @ x # xs \<and> fold (best_step cnt) (x # xs) (sel, n) = (Some x, cnt x)
         \<and> n < cnt x \<and> (\<forall>y\<in>set []. cnt y < cnt x) \<and> (\<forall>y\<in>set xs. cnt y \<le> cnt x)"
        using True False by (auto simp: not_less)
      then show ?thesis by blast
    next
      case later: True
      from Cons.IH [OF later, of "Some x"] obtain pre s post where
        "xs = pre @ s # post" "fold (best_step cnt) xs (Some x, cnt x) = (Some s, cnt s)"
        "cnt x < cnt s" "\<forall>x\<in>set pre. cnt x < cnt s" "\<forall>x\<in>set post. cnt x \<le> cnt s"
        by blast
      with step True have
        "x # xs = (x # pre) @ s # post
         \<and> fold (best_step cnt) (x # xs) (sel, n) = (Some s, cnt s)
         \<and> n < cnt s \<and> (\<forall>y\<in>set (x # pre). cnt y < cnt s) \<and> (\<forall>y\<in>set post. cnt y \<le> cnt s)"
        by auto
      then show ?thesis by blast
    qed
  next
    case False
    then have step: "fold (best_step cnt) (x # xs) (sel, n) = fold (best_step cnt) xs (sel, n)"
      by (simp add: best_step_simps)
    from False Cons.prems have later: "\<exists>y\<in>set xs. n < cnt y"
      by auto
    from Cons.IH [OF later, of sel] obtain pre s post where
      "xs = pre @ s # post" "fold (best_step cnt) xs (sel, n) = (Some s, cnt s)"
      "n < cnt s" "\<forall>x\<in>set pre. cnt x < cnt s" "\<forall>x\<in>set post. cnt x \<le> cnt s"
      by blast
    with step False have
      "x # xs = (x # pre) @ s # post
       \<and> fold (best_step cnt) (x # xs) (sel, n) = (Some s, cnt s)
       \<and> n < cnt s \<and> (\<forall>y\<in>set (x # pre). cnt y < cnt s) \<and> (\<forall>y\<in>set post. cnt y \<le> cnt s)"
      by auto
    then show ?thesis by blast
  qed
qed

lemma findArticle_fold:
  "findArticle d =
     fst (fold (best_step (\<lambda>s. length (find_in ''p'' s))) (body_find DIV_ARTICLE d) (None, 0))"
proof -
  have "(\<lambda>s (selected, selectedParas).
           let nbrParas = length (find_in ''p'' s)
           in if selectedParas < nbrParas then (Some s, nbrParas)
              else (selected, selectedParas))
        = best_step (\<lambda>s. length (find_in ''p'' s))"
    by (auto simp: fun_eq_iff best_step_def Let_def)
  then show ?thesis
    by (simp add: findArticle_def)
qed

text \<open>
  C3, as the claim states it, fails: the body of \<open>doc_bare_article\<close> has an element that
  matches the container selectors (the \<open><article>\<close>, without a \<open><p>\<close> below it), yet
  Phase A selects nothing and the scoring of Phase B picks the \<open><div>\<close>.
\<close>

theorem findArticle_skips_match_without_paragraph:
  "map nid (body_find DIV_ARTICLE doc_bare_article) = [2]
   \<and> findArticle doc_bare_article = None
   \<and> findContentSection doc_bare_article = Inr (Some 3, doc_bare_article)"
  by code_simp

text \<open>
  C3, amended.  When some element matching the container selectors has a descendant
  \<open><p>\<close>, Phase A selects the match with the greatest count of descendant \<open><p>\<close>
  elements, the first-seen on ties, and Phase B does not run.  When no match has a
  descendant \<open><p>\<close> (in particular when nothing matches), Phase A yields nothing and
  the result is that of the Phase B scoring.
\<close>

theorem findArticle_first_with_most_paragraphs:
  "((\<exists>s\<in>set (body_find DIV_ARTICLE d). 0 < length (find_in ''p'' s)) \<longrightarrow>
      (\<exists>pre s post.
          body_find DIV_ARTICLE d = pre @ s # post
          \<and> findArticle d = Some s
          \<and> 0 < length (find_in ''p'' s)
          \<and> (\<forall>x\<in>set pre. length (find_in ''p'' x) < length (find_in ''p'' s))
          \<and> (\<forall>x\<in>set post. length (find_in ''p'' x) \<le> length (find_in ''p'' s))
          \<and> findContentSection d = Inr (Some (nid s), d)))
   \<and> ((\<forall>s\<in>set (body_find DIV_ARTICLE d). length (find_in ''p'' s) = 0) \<longrightarrow>
        findArticle d = None
        \<and> findContentSection d =
            (case findGoodCandidates d of
               Inl e \<Rightarrow> Inl e
             | Inr st \<Rightarrow>
                 (case getTopCandidate (tree st) (readability st) (candidates st) of
                    Inl e \<Rightarrow> Inl e
                  | Inr (r, topCandidate) \<Rightarrow> Inr (topCandidate, tree st))))"
proof (rule conjI; rule impI)
  assume "\<exists>s\<in>set (body_find DIV_ARTICLE d). 0 < length (find_in ''p'' s)"
  from fold_best_some [OF this, of None] obtain pre s post where
    found: "body_find DIV_ARTICLE d = pre @ s # post"
      "fold (best_step (\<lambda>s. length (find_in ''p'' s))) (body_find DIV_ARTICLE d) (None, 0)
         = (Some s, length (find_in ''p'' s))"
      "0 < length (find_in ''p'' s)"
      "\<forall>x\<in>set pre. length (find_in ''p'' x) < length (find_in ''p'' s)"
      "\<forall>x\<in>set post. length (find_in ''p'' x) \<le> length (find_in ''p'' s)"
    by blast
  from found(2) have article: "findArticle d = Some s"
    by (simp add: findArticle_fold)
  then have "findContentSection d = Inr (Some (nid s), d)"
    by (simp add: findContentSection_def)
  with found article show
    "\<exists>pre s post.
        body_find DIV_ARTICLE d = pre @ s # post
        \<and> findArticle d = Some s
        \<and> 0 < length (find_in ''p'' s)
        \<and> (\<forall>x\<in>set pre. length (find_in ''p'' x) < length (find_in ''p'' s))
        \<and> (\<forall>x\<in>set post. length (find_in ''p'' x) \<le> length (find_in ''p'' s))
        \<and> findContentSection d = Inr (Some (nid s), d)"
    by blast
next
  assume "\<forall>s\<in>set (body_find DIV_ARTICLE d). length (find_in ''p'' s) = 0"
  then have "\<forall>s\<in>set (body_find DIV_ARTICLE d). length (find_in ''p'' s) \<le> 0"
    by simp
  from fold_best_none [OF this, of None] have article: "findArticle d = None"
    by (simp add: findArticle_fold)
  then show
    "findArticle d = None
     \<and> findContentSection d =
         (case findGoodCandidates d of
            Inl e \<Rightarrow> Inl e
          | Inr st \<Rightarrow>
              (case getTopCandidate (tree st) (readability st) (candidates st) of
                 Inl e \<Rightarrow> Inl e
               | Inr (r, topCandidate) \<Rightarrow> Inr (topCandidate, tree st)))"
    by (simp add: findContentSection_def)
qed

theorem findArticle_first_with_most_paragraphs_witness:
  "map (\<lambda>s. length (find_in ''p'' s)) (body_find DIV_ARTICLE doc_three_sections) = [1, 2, 2]
   \<and> (\<exists>pre s post.
          body_find DIV_ARTICLE doc_three_sections = pre @ s # post
          \<and> findArticle doc_three_sections = Some s
          \<and> 0 < length (find_in ''p'' s)
          \<and> (\<forall>x\<in>set pre. length (find_in ''p'' x) < length (find_in ''p'' s))
          \<and> (\<forall>x\<in>set post. length (find_in ''p'' x) \<le> length (find_in ''p'' s))
          \<and> findContentSection doc_three_sections = Inr (Some (nid s), doc_three_sections))
   \<and> map (\<lambda>s. length (find_in ''p'' s)) (body_find DIV_ARTICLE doc_bare_article) = [0]
   \<and> findArticle doc_bare_article = None"
proof -
  have counts:
    "map (\<lambda>s. length (find_in ''p'' s)) (body_find DIV_ARTICLE doc_three_sections) = [1, 2, 2]"
    by code_simp
  have some: "\<exists>s\<in>set (body_find DIV_ARTICLE doc_three_sections). 0 < length (find_in ''p'' s)"
    by code_simp
  have zero: "map (\<lambda>s. length (find_in ''p'' s)) (body_find DIV_ARTICLE doc_bare_article) = [0]"
    by code_simp
  have all_zero:
    "\<forall>s\<in>set (body_find DIV_ARTICLE doc_bare_article). length (find_in ''p'' s) = 0"
    by code_simp
  have a:
    "\<exists>pre s post.
        body_find DIV_ARTICLE doc_three_sections = pre @ s # post
        \<and> findArticle doc_three_sections = Some s
        \<and> 0 < length (find_in ''p'' s)
        \<and> (\<forall>x\<in>set pre. length (find_in ''p'' x) < length (find_in ''p'' s))
        \<and> (\<forall>x\<in>set post. length (find_in ''p'' x) \<le> length (find_in ''p'' s))
        \<and> findContentSection doc_three_sections = Inr (Some (nid s), doc_three_sections)"
    using findArticle_first_with_most_paragraphs [of doc_three_sections] some by blast
  have b: "findArticle doc_bare_article = None"
    using findArticle_first_with_most_paragraphs [of doc_bare_article] all_zero by blast
  from counts a zero b show ?thesis
    by blast
qed


section \<open>Selection: the stored scores\<close>

lemma subtree_elements: "y \<in> set (subtree n) \<Longrightarrow> is_element y"
  by (induction n) auto

lemma has_id_nid: "is_element e \<Longrightarrow> has_id i e = (nid e = i)"
  by (cases e) auto

lemma all_elements_element: "e \<in> set (all_elements d) \<Longrightarrow> is_element e"
  by (auto simp: all_elements_def dest: subtree_elements)

lemma lookup_known: "(lookup i d \<noteq> None) = known i d"
proof -
  have "(lookup i d \<noteq> None) = (\<exists>e\<in>set (all_elements d). has_id i e)"
    by (auto simp: lookup_def find_None_iff)
  also have "\<dots> = (\<exists>e\<in>set (all_elements d). nid e = i)"
    using all_elements_element has_id_nid by blast
  finally show ?thesis by (auto simp: known_def)
qed

lemma lookup_Some_id: "lookup i d = Some e \<Longrightarrow> nid e = i \<and> e \<in> set (all_elements d)"
proof -
  assume a: "lookup i d = Some e"
  then have "has_id i e" "e \<in> set (all_elements d)"
    by (auto simp: lookup_def find_Some_iff in_set_conv_nth)
  then show ?thesis
    using all_elements_element has_id_nid by blast
qed

lemma subst_keeps_ids:
  "x \<in> set (subtree T) \<Longrightarrow>
     nid x \<in> nid ` set (subtree (subst_id j new T))
     \<or> (\<exists>y\<in>set (cut_id j T). nid x \<in> nid ` set (subtree y))"
proof (induction T arbitrary: x)
  case (Element k t a cs)
  show ?case
  proof (cases "x = Element k t a cs")
    case True
    then show ?thesis by simp
  next
    case False
    with Element.prems obtain c where c: "c \<in> set cs" "x \<in> set (subtree c)"
      by auto
    show ?thesis
    proof (cases "has_id j c")
      case True
      with c have "c \<in> set (cut_id j (Element k t a cs))" by auto
      with c(2) show ?thesis by blast
    next
      case False
      from Element.IH [OF c] show ?thesis
      proof
        assume "nid x \<in> nid ` set (subtree (subst_id j new c))"
        then have "nid x \<in> nid ` set (subtree (subst_id j new (Element k t a cs)))"
          using c(1) False by (auto simp del: subst_id.simps(1) simp add: subst_id.simps(1) [of j new k t a cs]) 
        then show ?thesis by blast
      next
        assume "\<exists>y\<in>set (cut_id j c). nid x \<in> nid ` set (subtree y)"
        then have "\<exists>y\<in>set (cut_id j (Element k t a cs)). nid x \<in> nid ` set (subtree y)"
          using c(1) False by auto
        then show ?thesis by blast
      qed
    qed
  qed
qed simp_all

lemma replace_node_known: "known i d \<Longrightarrow> known i (replace_node j new d)"
proof -
  assume "known i d"
  then obtain T x where x: "T \<in> set (root d # detached d)" "x \<in> set (subtree T)" "nid x = i"
    by (auto simp: known_def all_elements_def)
  from subst_keeps_ids [OF x(2), of j new] show ?thesis
  proof
    assume "nid x \<in> nid ` set (subtree (subst_id j new T))"
    with x(1,3) show ?thesis
      by (auto simp: known_def all_elements_def replace_node_def)
  next
    assume "\<exists>y\<in>set (cut_id j T). nid x \<in> nid ` set (subtree y)"
    with x(1,3) show ?thesis
      by (fastforce simp: known_def all_elements_def replace_node_def)
  qed
qed

lemma first_some_in: "first_some xs = Some v \<Longrightarrow> Some v \<in> set xs"
  by (induction xs rule: first_some.induct) auto

lemma ancestors_in_subtree: "ancestors_in i T = Some up \<Longrightarrow> set up \<subseteq> set (subtree T)"
proof (induction T arbitrary: up)
  case (Element k t a cs)
  show ?case
  proof (cases "k = i")
    case True
    with Element.prems show ?thesis by simp
  next
    case False
    with Element.prems obtain up' where
      up': "first_some (map (ancestors_in i) cs) = Some up'" "up = up' @ [Element k t a cs]"
      by (auto split: option.splits)
    from first_some_in [OF up'(1)] obtain c where "c \<in> set cs" "ancestors_in i c = Some up'"
      by auto
    with Element.IH have "set up' \<subseteq> set (subtree c)" by blast
    with \<open>c \<in> set cs\<close> up'(2) show ?thesis by auto
  qed
qed simp_all

lemma parent_known: "parent i d = Some par \<Longrightarrow> known (nid par) d"
proof -
  assume "parent i d = Some par"
  then obtain up where up: "first_some (map (ancestors_in i) (root d # detached d)) = Some up"
      "par \<in> set up"
    by (auto simp: parent_def parents_def split: option.splits list.splits)
  from first_some_in [OF up(1)] have "Some up \<in> ancestors_in i ` set (root d # detached d)"
    by (simp only: set_map)
  then obtain T where T: "T \<in> set (root d # detached d)" "Some up = ancestors_in i T"
    by (rule imageE)
  from ancestors_in_subtree [OF T(2) [symmetric]] up(2) have "par \<in> set (subtree T)"
    by blast
  with T(1) have "par \<in> set (all_elements d)"
    unfolding all_elements_def by (simp only: set_concat set_map) blast
  then show ?thesis by (auto simp: known_def)
qed

lemma candidate_step_scored:
  assumes "scored st" "candidate_step p0 st = Inr st'"
  shows "scored st'"
proof -
  from assms(2) obtain p where p: "lookup (nid p0) (tree st) = Some p"
    by (auto simp: candidate_step_def split: option.splits)
  define d1 where "d1 = (if length (node_text p) = 0 then remove_node (nid p) (tree st) else tree st)"
  have keep: "\<And>i. known i (tree st) \<Longrightarrow> known i d1"
    by (simp add: d1_def remove_node_def replace_node_known)
  have pk: "known (nid p) d1"
    using p keep lookup_Some_id lookup_known by (metis option.distinct(1))
  show ?thesis
  proof (cases "js_string_lt (node_text p) MIN_CHARS")
    case True
    with assms(2) p have "st' = st \<lparr> tree := d1 \<rparr>"
      by (simp add: candidate_step_def d1_def Let_def)
    with assms(1) keep show ?thesis by (auto simp: scored_def)
  next
    case False
    define st1 where "st1 = (if readability st (nid p) = None
                          then st \<lparr> tree := d1,
                                    readability := initializeElement p (readability st),
                                    candidates := candidates st @ [nid p] \<rparr>
                          else st \<lparr> tree := d1 \<rparr>)"
    have s1: "scored st1" "readability st1 (nid p) \<noteq> None" "tree st1 = d1"
      using assms(1) keep pk by (auto simp: scored_def st1_def initializeElement_def)
    from assms(2) p False obtain par where par: "parent (nid p) d1 = Some par"
      by (auto simp: candidate_step_def d1_def Let_def split: option.splits)
    define st2 where "st2 = (if readability st1 (nid par) = None
                                 then st1 \<lparr> readability := initializeElement par (readability st1),
                                            candidates := candidates st1 @ [nid par] \<rparr>
                                 else st1)"
    have s2: "scored st2" "readability st2 (nid p) \<noteq> None" "readability st2 (nid par) \<noteq> None"
      using s1 parent_known [OF par] by (auto simp: scored_def st2_def initializeElement_def)
    from s2 obtain sp where sp: "readability st2 (nid p) = Some sp"
      by auto
    define inc where "inc = 1 + length (split_char CHR '','' (node_text p))
                              + min (length (node_text p) div NBR_CHARS) EXTRA_SCORE"
    define r3 where "r3 = (readability st2) (nid p \<mapsto> js_add sp (Fin (of_nat inc)))"
    from s2 have "r3 (nid par) \<noteq> None"
      by (simp add: r3_def)
    then obtain spar where spar: "r3 (nid par) = Some spar"
      by auto
    have "candidate_step p0 st
            = Inr (st2 \<lparr> readability := r3 (nid par \<mapsto> js_add spar (Fin (of_nat inc / HALF))) \<rparr>)"
      unfolding candidate_step_def
      by (simp only: p option.case Let_def d1_def [symmetric] False if_False
            st1_def [symmetric] par st2_def [symmetric] inc_def [symmetric] sp
            r3_def [symmetric] spar)
    with assms(2) have
      "st' = st2 \<lparr> readability := r3 (nid par \<mapsto> js_add spar (Fin (of_nat inc / HALF))) \<rparr>"
      by simp
    with s2 show ?thesis
      by (auto simp: scored_def r3_def)
  qed
qed

lemma fold_err_invariant:
  assumes "\<And>x s s'. P s \<Longrightarrow> f x s = Inr s' \<Longrightarrow> P s'" "P s" "fold_err f xs s = Inr s'"
  shows "P s'"
  using assms(2,3)
proof (induction xs arbitrary: s)
  case Nil
  then show ?case by simp
next
  case (Cons x xs)
  from Cons.prems(2) obtain s1 where "f x s = Inr s1" "fold_err f xs s1 = Inr s'"
    by (auto split: sum.splits)
  with Cons.IH assms(1) Cons.prems(1) show ?case by blast
qed

lemma findGoodCandidates_scored: "findGoodCandidates d = Inr st \<Longrightarrow> scored st"
proof -
  assume a: "findGoodCandidates d = Inr st"
  have "scored \<lparr> tree = d, readability = (\<lambda>i. None), candidates = [] \<rparr>"
    by (simp add: scored_def)
  from fold_err_invariant [of scored candidate_step, OF candidate_step_scored this] a
  show ?thesis
    by (simp add: findGoodCandidates_def)
qed

lemma top_step_ok:
  assumes "lookup c d = Some e" "r c = Some s" "case t of None \<Rightarrow> True | Some x \<Rightarrow> r x \<noteq> None"
  shows "\<exists>t'. top_step d c (r, t) = Inr (r (c := scaled_score d r c), Some t')
            \<and> (r (c := scaled_score d r c)) t' \<noteq> None"
proof (cases t)
  case None
  with assms show ?thesis
    by (simp add: top_step_def scaled_score_def Let_def)
next
  case (Some x)
  with assms obtain sx where "r x = Some sx" by auto
  with Some assms show ?thesis
    by (auto simp: top_step_def scaled_score_def Let_def)
qed

lemma top_fold:
  assumes "distinct cs" "\<forall>c\<in>set cs. lookup c d \<noteq> None \<and> r c \<noteq> None"
    "case t of None \<Rightarrow> True | Some x \<Rightarrow> r x \<noteq> None"
  shows "\<exists>r' best. fold_err (top_step d) cs (r, t) = Inr (r', best)
            \<and> (\<forall>i. r' i = (if i \<in> set cs then scaled_score d r i else r i))
            \<and> (cs \<noteq> [] \<longrightarrow> (\<exists>b. best = Some b))"
  using assms
proof (induction cs arbitrary: r t)
  case Nil
  then show ?case by simp
next
  case (Cons c cs)
  from Cons.prems obtain e s where es: "lookup c d = Some e" "r c = Some s"
    by auto
  let ?r1 = "r (c := scaled_score d r c)"
  from top_step_ok [OF es Cons.prems(3)] obtain t' where
    step: "top_step d c (r, t) = Inr (?r1, Some t')" and t': "?r1 t' \<noteq> None"
    by blast
  have r1c: "?r1 c \<noteq> None"
    using es by (simp add: scaled_score_def)
  have "distinct cs" "\<forall>x\<in>set cs. lookup x d \<noteq> None \<and> ?r1 x \<noteq> None"
    "case Some t' of None \<Rightarrow> True | Some x \<Rightarrow> ?r1 x \<noteq> None"
    using Cons.prems t' by auto
  from Cons.IH [OF this] obtain r' best where
    ih: "fold_err (top_step d) cs (?r1, Some t') = Inr (r', best)"
        "\<forall>i. r' i = (if i \<in> set cs then scaled_score d ?r1 i else ?r1 i)"
        "cs \<noteq> [] \<longrightarrow> (\<exists>b. best = Some b)"
    by blast
  have same: "\<And>i. i \<in> set cs \<Longrightarrow> scaled_score d ?r1 i = scaled_score d r i"
    using Cons.prems(1) by (auto simp: scaled_score_def)
  have best: "\<exists>b. best = Some b"
  proof (cases cs)
    case Nil
    with ih(1) show ?thesis by auto
  next
    case (Cons a list)
    with ih(3) show ?thesis by simp
  qed
  have "fold_err (top_step d) (c # cs) (r, t) = Inr (r', best)"
    using step ih(1) by simp
  moreover have "\<forall>i. r' i = (if i \<in> set (c # cs) then scaled_score d r i else r i)"
    using ih(2) same by auto
  ultimately show ?case
    using best by blast
qed

text \<open>
  C5, as the claim states it, fails: for \<open><div><p>a<a href="#">b</a></p></div>\<close> the
  collection stores the scores 2 for the paragraph and 6 for the \<open><div>\<close>; after the
  selection the stored scores are 1 and 3.
\<close>

theorem getTopCandidate_changes_stored_scores:
  "(case findGoodCandidates doc_half_link of
      Inl e \<Rightarrow> False
    | Inr st \<Rightarrow>
        candidates st = [3, 2]
        \<and> map (readability st) [3, 2] = [Some (Fin 2), Some (Fin 6)]
        \<and> (case getTopCandidate (tree st) (readability st) (candidates st) of
             Inl e \<Rightarrow> False
           | Inr (r, best) \<Rightarrow> map r [3, 2] = [Some (Fin 1), Some (Fin 3)]))"
  by code_simp

text \<open>
  C5, amended.  The selection step overwrites the stored \<open>contentScore\<close> of every
  candidate that the collection of Phase B returns, once (the candidates are distinct),
  with that score times \<open>1 - linkDensity\<close> of the candidate, and leaves the
  \<open>readability\<close> of every other element as it is.
\<close>

theorem getTopCandidate_overwrites_scores:
  assumes "findGoodCandidates d = Inr st"
  shows "distinct (candidates st)
         \<and> (\<exists>r' best.
               getTopCandidate (tree st) (readability st) (candidates st) = Inr (r', best)
               \<and> (\<forall>i. r' i = (if i \<in> set (candidates st)
                               then scaled_score (tree st) (readability st) i
                               else readability st i)))"
proof -
  from findGoodCandidates_scored [OF assms] have
    "distinct (candidates st)"
    "\<forall>c\<in>set (candidates st). lookup c (tree st) \<noteq> None \<and> readability st c \<noteq> None"
    by (auto simp: scored_def lookup_known [symmetric])
  from this(1) top_fold [OF this, of None] show ?thesis
    by (auto simp: getTopCandidate_def)
qed

theorem getTopCandidate_overwrites_scores_witness:
  "\<exists>st. findGoodCandidates doc_half_link = Inr st
        \<and> candidates st = [3, 2]
        \<and> map (readability st) [3, 2] = [Some (Fin 2), Some (Fin 6)]
        \<and> map (scaled_score (tree st) (readability st)) [3, 2] = [Some (Fin 1), Some (Fin 3)]
        \<and> distinct (candidates st)
        \<and> (\<exists>r' best.
              getTopCandidate (tree st) (readability st) (candidates st) = Inr (r', best)
              \<and> (\<forall>i. r' i = (if i \<in> set (candidates st)
                              then scaled_score (tree st) (readability st) i
                              else readability st i)))"
proof -
  have "(case findGoodCandidates doc_half_link of
           Inl e \<Rightarrow> False
         | Inr st \<Rightarrow>
             candidates st = [3, 2]
             \<and> map (readability st) [3, 2] = [Some (Fin 2), Some (Fin 6)]
             \<and> map (scaled_score (tree st) (readability st)) [3, 2] = [Some (Fin 1), Some (Fin 3)])"
    by code_simp
  then obtain st where st: "findGoodCandidates doc_half_link = Inr st"
      "candidates st = [3, 2]"
      "map (readability st) [3, 2] = [Some (Fin 2), Some (Fin 6)]"
      "map (scaled_score (tree st) (readability st)) [3, 2] = [Some (Fin 1), Some (Fin 3)]"
    by (cases "findGoodCandidates doc_half_link") auto
  note main = getTopCandidate_overwrites_scores [OF st(1)]
  show ?thesis
    by (rule exI [of _ st]) (intro conjI st main [THEN conjunct1] main [THEN conjunct2])
qed

section \<open>Images\<close>

lemma concat_map_if:
  "concat (map (\<lambda>c. if P c then [] else [f c]) xs) = map f (filter (\<lambda>c. \<not> P c) xs)"
  by (induction xs) auto

lemma in_ids_single: "in_ids {i} c = has_id i c"
  by (cases c) auto

lemma subst_id_prune: "subst_id i [] n = prune {i} n"
  by (induction n) (auto simp: concat_map_if in_ids_single)

lemma in_ids_prune: "in_ids S (prune T c) = in_ids S c"
  by (cases c) auto

lemma in_ids_Un: "in_ids (S \<union> T) c = (in_ids S c \<or> in_ids T c)"
  by (cases c) auto

lemma prune_prune: "prune S (prune T n) = prune (S \<union> T) n"
proof (induction n)
  case (Element j t a cs)
  have "map (prune S) (filter (\<lambda>c. \<not> in_ids S c) (map (prune T) (filter (\<lambda>c. \<not> in_ids T c) cs)))
        = map (prune (S \<union> T)) (filter (\<lambda>c. \<not> in_ids (S \<union> T) c) cs)"
    using Element.IH
    by (induction cs) (auto simp: in_ids_prune in_ids_Un)
  then show ?case by simp
qed simp_all

lemma self_in_subtree: "is_element n \<Longrightarrow> n \<in> set (subtree n)"
  by (cases n) auto

lemma subtree_trans: "y \<in> set (subtree c) \<Longrightarrow> c \<in> set (subtree n) \<Longrightarrow> y \<in> set (subtree n)"
  by (induction n) auto

lemma descendants_child:
  "c \<in> set cs \<Longrightarrow> y \<in> set (subtree c) \<Longrightarrow> y \<in> set (descendants (Element j t a cs))"
  by (auto simp: descendants_def)

lemma descendants_subtree: "y \<in> set (descendants n) \<Longrightarrow> y \<in> set (subtree n)"
  by (cases n) (auto simp: descendants_def)

lemma subtree_cases:
  "y \<in> set (subtree n) \<Longrightarrow> y = n \<or> y \<in> set (descendants n)"
  by (cases n) (auto simp: descendants_def)

lemma root_replace_node: "root (replace_node i new d) = subst_id i new (root d)"
  by (simp add: replace_node_def)

lemma in_ids_empty: "\<not> in_ids {} c"
  by (cases c) auto

lemma prune_empty: "prune {} n = n"
  by (induction n) (auto simp: in_ids_empty map_idI)

lemma root_remove_nodes: "root (remove_nodes es d) = prune (nid ` set es) (root d)"
proof -
  have "root (fold (\<lambda>e. remove_node (nid e)) es d) = prune (nid ` set es) (root d)"
  proof (induction es arbitrary: d)
    case Nil
    then show ?case by (simp add: prune_empty)
  next
    case (Cons e es)
    have "root (fold (\<lambda>e. remove_node (nid e)) es (remove_node (nid e) d))
            = prune (nid ` set es) (root (remove_node (nid e) d))"
      by (rule Cons.IH)
    moreover have "root (remove_node (nid e) d) = prune {nid e} (root d)"
      by (simp add: remove_node_def root_replace_node subst_id_prune)
    moreover have "nid ` set es \<union> {nid e} = nid ` set (e # es)"
      by auto
    ultimately show ?case
      by (simp add: prune_prune)
  qed
  then show ?thesis by (simp add: remove_nodes_def)
qed

lemma prune_element: "is_element y \<Longrightarrow> is_element (prune S y) \<and> nid (prune S y) = nid y
   \<and> name (prune S y) = name y \<and> attribs (prune S y) = attribs y"
  by (cases y) auto

lemma matches_prune: "matches sel (prune S y) = matches sel y"
proof (cases y)
  case (Element j t a cs)
  have "\<And>x. matches_simple (prune S y) x = matches_simple y x"
  proof -
    fix x show "matches_simple (prune S y) x = matches_simple y x"
      using Element by (cases x) auto
  qed
  then show ?thesis
    using Element by (simp add: matches_def list_ex_iff)
qed (simp_all add: matches_def)

lemma descendants_prune:
  "x \<in> set (descendants (prune S n)) \<Longrightarrow>
     \<exists>y\<in>set (descendants n). x = prune S y \<and> \<not> in_ids S y"
proof (induction n arbitrary: x)
  case (Element j t a cs)
  from Element.prems obtain c where c: "c \<in> set cs" "\<not> in_ids S c" "x \<in> set (subtree (prune S c))"
    by (auto simp: descendants_def)
  from subtree_cases [OF c(3)] show ?case
  proof
    assume eq: "x = prune S c"
    from c(3) have "is_element x" by (rule subtree_elements)
    with eq have "is_element c" by (cases c) auto
    then have "c \<in> set (descendants (Element j t a cs))"
      using c(1) by (auto intro: descendants_child self_in_subtree)
    with eq c(2) show ?thesis by blast
  next
    assume "x \<in> set (descendants (prune S c))"
    from Element.IH [OF c(1) this] obtain y where
      y: "y \<in> set (descendants c)" "x = prune S y" "\<not> in_ids S y"
      by blast
    from y(1) c(1) have "y \<in> set (descendants (Element j t a cs))"
      by (auto intro: descendants_child descendants_subtree)
    with y show ?thesis by blast
  qed
qed (simp_all add: descendants_def)

lemma subtree_prune:
  "x \<in> set (subtree (prune S n)) \<Longrightarrow> \<exists>y\<in>set (subtree n). x = prune S y"
proof -
  assume x: "x \<in> set (subtree (prune S n))"
  from subtree_cases [OF x] show ?thesis
  proof
    assume eq: "x = prune S n"
    from x have "is_element x" by (rule subtree_elements)
    with eq have "is_element n" by (cases n) auto
    with eq show ?thesis by (auto intro: self_in_subtree)
  next
    assume "x \<in> set (descendants (prune S n))"
    from descendants_prune [OF this] show ?thesis
      by (auto intro: descendants_subtree)
  qed
qed

lemma uniq_subset: "set (uniq xs) \<subseteq> set xs"
  by (induction xs rule: uniq.induct) auto

lemma uniq_ids: "nid ` set (uniq xs) = nid ` set xs"
  by (induction xs rule: uniq.induct) auto

lemma in_ids_nid: "is_element y \<Longrightarrow> in_ids S y = (nid y \<in> S)"
  by (cases y) auto

lemma body_find_pruned:
  assumes "root d' = prune S (root d)" "x \<in> set (body_find sel d')"
  shows "nid x \<notin> S \<and> nid x \<in> nid ` set (body_find sel d)"
proof -
  from assms(2) uniq_subset obtain b' where
    b': "b' \<in> set (select ''body'' d')" "x \<in> set (find_in sel b')"
    by (fastforce simp: body_find_def find_all_def)
  from b'(1) have "b' \<in> set (subtree (prune S (root d)))" "matches (parse_selector ''body'') b'"
    by (simp_all add: select_def assms(1))
  then obtain b where b: "b \<in> set (subtree (root d))" "b' = prune S b"
    using subtree_prune by blast
  with \<open>matches (parse_selector ''body'') b'\<close> have "b \<in> set (select ''body'' d)"
    by (simp add: select_def matches_prune)
  from b'(2) b(2) have "x \<in> set (descendants (prune S b))" "matches (parse_selector sel) x"
    by (simp_all add: find_in_def)
  then obtain y where y: "y \<in> set (descendants b)" "x = prune S y" "\<not> in_ids S y"
    using descendants_prune by blast
  have el: "is_element y"
    using y(1) by (auto intro: subtree_elements descendants_subtree)
  from y \<open>matches (parse_selector sel) x\<close> have "y \<in> set (find_in sel b)"
    by (simp add: find_in_def matches_prune)
  with \<open>b \<in> set (select ''body'' d)\<close> have "y \<in> set (concat (map (find_in sel) (select ''body'' d)))"
    by auto
  then have "nid y \<in> nid ` set (body_find sel d)"
    unfolding body_find_def find_all_def uniq_ids by (rule imageI)
  moreover have "nid x = nid y" "nid y \<notin> S"
    using el y by (simp_all add: prune_element in_ids_nid)
  ultimately show ?thesis by simp
qed

lemma body_find_after_remove: "body_find sel (remove_nodes (body_find sel d) d) = []"
proof (rule ccontr)
  assume "body_find sel (remove_nodes (body_find sel d) d) \<noteq> []"
  then obtain x where "x \<in> set (body_find sel (remove_nodes (body_find sel d) d))"
    by (cases "body_find sel (remove_nodes (body_find sel d) d)") auto
  from body_find_pruned [OF root_remove_nodes this] show False
    by simp
qed

lemma find_all_sound:
  "x \<in> set (find_all sel es) \<Longrightarrow>
     matches (parse_selector sel) x \<and> (\<exists>c\<in>set es. x \<in> set (descendants c))"
  using uniq_subset [of "concat (map (find_in sel) es)"]
  by (auto simp: find_all_def find_in_def)

lemma find_all_complete:
  "c \<in> set es \<Longrightarrow> x \<in> set (descendants c) \<Longrightarrow> matches (parse_selector sel) x \<Longrightarrow>
     nid x \<in> nid ` set (find_all sel es)"
proof -
  assume "c \<in> set es" "x \<in> set (descendants c)" "matches (parse_selector sel) x"
  then have "x \<in> set (concat (map (find_in sel) es))"
    by (auto simp: find_in_def)
  then show ?thesis
    unfolding find_all_def uniq_ids by (rule imageI)
qed

lemma matches_img: "matches (parse_selector ''img'') x = (is_element x \<and> name x = ''img'')"
  by (simp add: matches_def parse_selector_def parse_simple_def trim_def js_space_def)

text \<open>
  C9, as the claim states it, fails: \<open>doc_images\<close> has two \<open><img>\<close> elements, one
  outside the \<open><article>\<close> that becomes the content subtree; the \<open>images\<close> of the result
  hold the inner one only.
\<close>

theorem images_outside_content_are_not_recorded:
  "map (attr ''src'') (select ''img'' doc_images) = [Some ''out.png'', Some ''in.png'']
   \<and> (case findContent (\<lambda>markup. []) doc_images HTML no_options of
        Inl e \<Rightarrow> False
      | Inr result \<Rightarrow> images result = [(Some ''in.png'', None)])"
  by code_simp

text \<open>
  C9, amended.  \<open>findImages\<close> records \<open>{src, alt}\<close> for the \<open><img>\<close> elements below the
  elements of the content selection, in the order of the selection, and for no other
  element.  When \<open>removeImages\<close> is in effect, no \<open><img>\<close> is left below the body after
  the recording; when it is not, the tree is left as it is.
\<close>

theorem findImages_records_content_images:
  "fst (findImages d contentSection opts)
     = map (\<lambda>img. (attr ''src'' img, attr ''alt'' img))
         (find_all ''img'' (lookup_all contentSection d))
   \<and> (\<forall>img\<in>set (find_all ''img'' (lookup_all contentSection d)).
         name img = ''img'' \<and> (\<exists>c\<in>set (lookup_all contentSection d). img \<in> set (descendants c)))
   \<and> (\<forall>c\<in>set (lookup_all contentSection d). \<forall>img\<in>set (descendants c).
         name img = ''img'' \<longrightarrow> nid img \<in> nid ` set (find_all ''img'' (lookup_all contentSection d)))
   \<and> (flag (opt_removeImages opts) \<longrightarrow>
         body_find ''img'' (snd (findImages d contentSection opts)) = [])
   \<and> (\<not> flag (opt_removeImages opts) \<longrightarrow> snd (findImages d contentSection opts) = d)"
proof (intro conjI ballI impI)
  show "fst (findImages d contentSection opts)
     = map (\<lambda>img. (attr ''src'' img, attr ''alt'' img))
         (find_all ''img'' (lookup_all contentSection d))"
    by (simp add: findImages_def Let_def)
next
  fix img assume "img \<in> set (find_all ''img'' (lookup_all contentSection d))"
  from find_all_sound [OF this] show "name img = ''img''"
    by (simp add: matches_img)
next
  fix img assume "img \<in> set (find_all ''img'' (lookup_all contentSection d))"
  from find_all_sound [OF this]
  show "\<exists>c\<in>set (lookup_all contentSection d). img \<in> set (descendants c)"
    by simp
next
  fix c img
  assume c: "c \<in> set (lookup_all contentSection d)" and img: "img \<in> set (descendants c)"
    and "name img = ''img''"
  moreover from img have "is_element img"
    by (auto intro: subtree_elements descendants_subtree)
  ultimately have "matches (parse_selector ''img'') img"
    by (simp add: matches_img)
  from find_all_complete [OF c img this]
  show "nid img \<in> nid ` set (find_all ''img'' (lookup_all contentSection d))" .
next
  assume "flag (opt_removeImages opts)"
  then show "body_find ''img'' (snd (findImages d contentSection opts)) = []"
    by (simp add: findImages_def Let_def body_find_after_remove)
next
  assume "\<not> flag (opt_removeImages opts)"
  then show "snd (findImages d contentSection opts) = d"
    by (simp add: findImages_def Let_def)
qed

theorem findImages_records_content_images_witness:
  "flag (opt_removeImages defaultOptions)
   \<and> body_find ''img'' (snd (findImages doc_images [3] defaultOptions)) = []
   \<and> fst (findImages doc_images [3] defaultOptions) = [(Some ''in.png'', None)]
   \<and> map nid (body_find ''img'' doc_images) = [2, 5]
   \<and> \<not> flag (opt_removeImages no_options)
   \<and> snd (findImages doc_images [3] no_options) = doc_images"
proof -
  have on: "flag (opt_removeImages defaultOptions)"
    by code_simp
  have off: "\<not> flag (opt_removeImages no_options)"
    by code_simp
  have recorded: "fst (findImages doc_images [3] defaultOptions) = [(Some ''in.png'', None)]"
    by code_simp
  have before: "map nid (body_find ''img'' doc_images) = [2, 5]"
    by code_simp
  have removed: "body_find ''img'' (snd (findImages doc_images [3] defaultOptions)) = []"
    using findImages_records_content_images [of doc_images "[3]" defaultOptions] on by blast
  have kept: "snd (findImages doc_images [3] no_options) = doc_images"
    using findImages_records_content_images [of doc_images "[3]" no_options] off by blast
  from on removed recorded before off kept show ?thesis
    by blast
qed

section \<open>Where the program departs from its description\<close>

lemma spread_default_flags:
  "spread opts0 defaultOptions =
     defaultOptions \<lparr> opt_removeTags := opt_removeTags opts0, opt_htmlSelector := opt_htmlSelector opts0 \<rparr>"
  by (simp add: spread_def defaultOptions_def spread_key_def)

text \<open>
  C1.  The options of a caller do not take effect for the keys that \<open>defaultOptions\<close>
  has: \<open>{ ...o, ...defaultOptions }\<close> lets the defaults win, whatever the caller
  passes, and \<open>findContent\<close> depends on the caller's options through \<open>removeTags\<close> and
  \<open>htmlSelector\<close> only.  With \<open>{ removeForm: true, removeImages: false }\<close> the \<open><form>\<close>
  of \<open>doc_form\<close> stays in the content and its \<open><img>\<close> is removed.
\<close>

theorem caller_options_are_overridden:
  "opt_useFirstH1 (spread opts0 defaultOptions) = Some True
   \<and> opt_removeH1FromContent (spread opts0 defaultOptions) = Some True
   \<and> opt_removeHeadersWithoutText (spread opts0 defaultOptions) = Some True
   \<and> opt_removeImages (spread opts0 defaultOptions) = Some True
   \<and> opt_removeFigcaptions (spread opts0 defaultOptions) = Some True
   \<and> opt_replaceLinks (spread opts0 defaultOptions) = Some True
   \<and> opt_removeForm (spread opts0 defaultOptions) = Some False
   \<and> opt_removeEmptyTag (spread opts0 defaultOptions) = Some False
   \<and> findContent turndown d type opts0
       = findContent turndown d type
           (no_options \<lparr> opt_removeTags := opt_removeTags opts0,
                          opt_htmlSelector := opt_htmlSelector opts0 \<rparr>)
   \<and> (case findContent (\<lambda>markup. []) doc_form HTML
             (no_options \<lparr> opt_removeForm := Some True, opt_removeImages := Some False \<rparr>) of
        Inl e \<Rightarrow> False
      | Inr result \<Rightarrow>
          content result
            = Markup [Element 3 ''p'' [] [Text ''x''],
                      Element 4 ''form'' [] [Element 5 ''input'' [] []]])"
proof -
  have flags: "opt_useFirstH1 (spread opts0 defaultOptions) = Some True
   \<and> opt_removeH1FromContent (spread opts0 defaultOptions) = Some True
   \<and> opt_removeHeadersWithoutText (spread opts0 defaultOptions) = Some True
   \<and> opt_removeImages (spread opts0 defaultOptions) = Some True
   \<and> opt_removeFigcaptions (spread opts0 defaultOptions) = Some True
   \<and> opt_replaceLinks (spread opts0 defaultOptions) = Some True
   \<and> opt_removeForm (spread opts0 defaultOptions) = Some False
   \<and> opt_removeEmptyTag (spread opts0 defaultOptions) = Some False"
    by (simp add: spread_default_flags) (simp add: defaultOptions_def)
  have "spread opts0 defaultOptions
          = spread (no_options \<lparr> opt_removeTags := opt_removeTags opts0,
                          opt_htmlSelector := opt_htmlSelector opts0 \<rparr>) defaultOptions"
    by (simp add: spread_default_flags)
  then have same: "findContent turndown d type opts0
       = findContent turndown d type
           (no_options \<lparr> opt_removeTags := opt_removeTags opts0,
                          opt_htmlSelector := opt_htmlSelector opts0 \<rparr>)"
    by (simp only: findContent_def)
  have kept: "(case findContent (\<lambda>markup. []) doc_form HTML
             (no_options \<lparr> opt_removeForm := Some True, opt_removeImages := Some False \<rparr>) of
        Inl e \<Rightarrow> False
      | Inr result \<Rightarrow>
          content result
            = Markup [Element 3 ''p'' [] [Text ''x''],
                      Element 4 ''form'' [] [Element 5 ''input'' [] []]])"
    by code_simp
  from flags same kept show ?thesis
    by (intro conjI) (simp_all only:)
qed

lemma cleanContent_empty: "cleanContent d [] opts = Inr d"
  by (simp add: cleanContent_def removeH1FromContent_def lookup_all_def find_all_def each_node_def)

lemma findLinks_empty: "findLinks d [] opts = ([], d)"
  by (simp add: findLinks_def lookup_all_def find_all_def)

text \<open>
  C2.  When no \<open>htmlSelector\<close> is set and \<open>findContentSection\<close> returns \<open>null\<close> (no
  container element with a paragraph, no candidate), \<open>findContent\<close> does not take the
  body: \<open>$(null)\<close> is an empty selection, which is truthy, its \<open>html()\<close> is \<open>null\<close> and
  \<open>findContent\<close> throws the content-not-found error.
\<close>

theorem no_fallback_to_body:
  assumes "\<not> truthy_string (opt_htmlSelector opts0)"
    and "findContentSection (cleanHTML d (spread opts0 defaultOptions)) = Inr (None, d2)"
  shows "findContent turndown d type opts0 = Inl ContentNotFound"
proof -
  have "opt_htmlSelector (spread opts0 defaultOptions) = opt_htmlSelector opts0"
    by (simp add: spread_def defaultOptions_def spread_key_def)
  with assms show ?thesis
    by (simp add: findContent_def Let_def truthy_selection_def findImages_def findLinks_empty
          cleanContent_empty lookup_all_def find_all_def html_def)
qed

theorem no_fallback_to_body_witness:
  "\<not> truthy_string (opt_htmlSelector no_options)
   \<and> findArticle (cleanHTML doc_no_candidate (spread no_options defaultOptions)) = None
   \<and> findContentSection (cleanHTML doc_no_candidate (spread no_options defaultOptions))
       = Inr (None, doc_no_candidate)
   \<and> findContent (\<lambda>markup. []) doc_no_candidate HTML no_options = Inl ContentNotFound"
proof -
  have a: "\<not> truthy_string (opt_htmlSelector no_options)"
    by code_simp
  have b: "findArticle (cleanHTML doc_no_candidate (spread no_options defaultOptions)) = None"
    by code_simp
  have c: "findContentSection (cleanHTML doc_no_candidate (spread no_options defaultOptions))
       = Inr (None, doc_no_candidate)"
    by code_simp
  from a b c no_fallback_to_body [OF a c] show ?thesis
    by simp
qed
text \<open>
  C4.  A paragraph with the five characters \<open>hello\<close> is scored: \<open>'hello' < 25\<close> compares
  NaN with 25 and is false.  The paragraph and its parent become candidates with the
  scores 2 and 6.
\<close>

theorem short_paragraph_is_scored:
  "map node_text (body_find ''p'' doc_short_paragraph) = [''hello'']
   \<and> js_ToNumber ''hello'' = NaN
   \<and> \<not> js_string_lt ''hello'' MIN_CHARS
   \<and> (case findGoodCandidates doc_short_paragraph of
        Inl e \<Rightarrow> False
      | Inr st \<Rightarrow>
          candidates st = [3, 2]
          \<and> map (readability st) [3, 2] = [Some (Fin 2), Some (Fin 6)])"
  by code_simp

text \<open>
  C6.  A table of three rows without \<open><tbody>\<close> loses its third row: \<open>rows\<close> is the
  \<open>html()\<close> of the first of the remaining rows only.  The table of \<open>doc_three_rows\<close>
  becomes \<open><thead></thead><td>H</td><tbody><td>1</td></tbody>\<close>: the cell of the first
  row follows an empty \<open><thead>\<close>, the cell of the second row is in the \<open><tbody>\<close>
  and the cell \<open>2\<close> of the third row is nowhere.
\<close>

theorem third_row_is_lost:
  "(case findContent (\<lambda>markup. []) doc_three_rows HTML no_options of
      Inl e \<Rightarrow> False
    | Inr result \<Rightarrow>
        content result
          = Markup [Element 3 ''p'' [] [Text ''x''],
                    Element 4 ''table'' []
                      [Element 11 ''thead'' [] [],
                       Element 12 ''td'' [] [Text ''H''],
                       Element 13 ''tbody'' [] [Element 14 ''td'' [] [Text ''1'']]]])"
  by code_simp

text \<open>
  C8.  An empty \<open><table>\<close> in the content subtree makes \<open>addTableHeader\<close> throw a
  \<open>TypeError\<close>: neither the content-not-found error nor a result.
\<close>

theorem empty_table_throws:
  "findContent (\<lambda>markup. []) doc_empty_table HTML no_options = Inl TypeError"
  by code_simp

end
